theory Spec2Isabelle
  imports Complex_Main "HOL-Library.AList"
begin

section \<open>Location cache service (location-cache.service.ts)\<close>

text \<open>
  Conventions of the embedding. A JavaScript \<open>number\<close> that holds a count is a \<open>nat\<close>,
  one that holds a clock reading, a duration or an identifier is an \<open>int\<close>
  (milliseconds, as \<open>Date.now()\<close> returns them), and one that holds a measurement or a
  ratio is a \<open>real\<close>. Every function that reads the clock takes the reading as its
  argument \<open>now\<close>. A \<open>Map\<close> is an association list in insertion order: \<open>Map.set\<close> on a
  key that is present replaces the value where it stands and otherwise appends
  (\<open>AList.update\<close>), \<open>Map.delete\<close> removes the key (\<open>AList.delete\<close>), \<open>Map.get\<close> is
  \<open>map_of\<close>, \<open>Map.size\<close> is \<open>length\<close>, and iteration visits the list from its head.
  Methods that write fields of the service take the fields they touch and return them
  updated.
\<close>

record 'a CacheEntry =
  data :: 'a
  timestamp :: int
  ttl :: int
  accessCount :: nat
  lastAccessed :: int

record CacheConfig =
  maxSize :: int
  defaultTtl :: int
  cleanupInterval :: int
  enableMetrics :: bool

record CacheMetrics =
  hits :: nat
  misses :: nat
  evictions :: nat
  size_m :: nat
  hitRate :: real

type_synonym 'a Cache = "(string \<times> 'a CacheEntry) list"

record LocationPoint =
  utcTime :: int
  lat :: real
  lng :: real
  speed :: real
  alt :: real
  dir :: real
  timestamp_p :: string
  heading :: real

text \<open>
  \<open>utcTime\<close> is held as the epoch milliseconds that \<open>new Date(utcTime).getTime()\<close>
  yields for the point's time string; the opaque \<open>info\<close> payload is never read and is
  left out. The point's own \<open>timestamp\<close> string is the field \<open>timestamp_p\<close>, and the
  \<open>size\<close> of the metrics is \<open>size_m\<close>.
\<close>

record CacheService =
  config :: CacheConfig
  availableDatesCache :: "int list Cache"
  locationDataCache :: "LocationPoint list Cache"
  metrics_sig :: CacheMetrics

definition initialConfig :: CacheConfig where
  "initialConfig =
     \<lparr>maxSize = 100, defaultTtl = 600000, cleanupInterval = 300000, enableMetrics = True\<rparr>"

definition zeroMetrics :: CacheMetrics where
  "zeroMetrics = \<lparr>hits = 0, misses = 0, evictions = 0, size_m = 0, hitRate = 0\<rparr>"

definition initialCacheService :: CacheService where
  "initialCacheService =
     \<lparr>config = initialConfig, availableDatesCache = [], locationDataCache = [],
      metrics_sig = zeroMetrics\<rparr>"

text \<open>
  The computed signal \<open>metrics\<close>: the stored counters (the signal \<open>_metrics\<close>, here
  \<open>metrics_sig\<close>) with \<open>hitRate\<close> and \<open>size\<close> derived. \<open>hitRate\<close> depends on the stored
  counters only.
\<close>

definition metrics :: "CacheService \<Rightarrow> CacheMetrics" where
  "metrics s =
     (let current = metrics_sig s;
          totalRequests = hits current + misses current
      in current
           \<lparr>hitRate := (if totalRequests > 0
                        then (real (hits current) / real totalRequests) * 100 else 0),
            size_m := length (availableDatesCache s) + length (locationDataCache s)\<rparr>)"

definition updateMetrics :: "CacheConfig \<Rightarrow> CacheMetrics \<Rightarrow> bool \<Rightarrow> CacheMetrics" where
  "updateMetrics cfg current isHit =
     (if \<not> enableMetrics cfg then current
      else current
             \<lparr>hits := (if isHit then hits current + 1 else hits current),
              misses := (if isHit then misses current else misses current + 1)\<rparr>)"

definition updateEvictionMetrics :: "CacheConfig \<Rightarrow> CacheMetrics \<Rightarrow> nat \<Rightarrow> CacheMetrics" where
  "updateEvictionMetrics cfg current count =
     (if \<not> enableMetrics cfg then current
      else current\<lparr>evictions := evictions current + count\<rparr>)"

definition resetMetrics :: CacheMetrics where
  "resetMetrics = \<lparr>hits = 0, misses = 0, evictions = 0, size_m = 0, hitRate = 0\<rparr>"

definition isExpired :: "'a CacheEntry \<Rightarrow> int \<Rightarrow> bool" where
  "isExpired entry now = ((now - timestamp entry) > ttl entry)"

text \<open>
  \<open>getCachedData\<close>: a missing key gives \<open>null\<close>; an expired entry is deleted, counted as
  one eviction, and gives \<open>null\<close>; otherwise the entry is updated in place and its data
  returned.
\<close>

definition getCachedData ::
  "CacheConfig \<Rightarrow> CacheMetrics \<Rightarrow> 'a Cache \<Rightarrow> string \<Rightarrow> int \<Rightarrow> 'a option \<times> 'a Cache \<times> CacheMetrics"
where
  "getCachedData cfg m cache key now =
     (case map_of cache key of
        None \<Rightarrow> (None, cache, m)
      | Some entry \<Rightarrow>
          if isExpired entry now
          then (None, AList.delete key cache, updateEvictionMetrics cfg m 1)
          else (Some (data entry),
                AList.update key
                  (entry\<lparr>accessCount := accessCount entry + 1, lastAccessed := now\<rparr>) cache,
                m))"

text \<open>
  The loop of \<open>evictLeastRecentlyUsed\<close>, with its two variables \<open>oldestKey\<close> and
  \<open>oldestTime\<close> as the accumulator.
\<close>

fun oldestEntry :: "'a Cache \<Rightarrow> string option \<times> int \<Rightarrow> string option \<times> int" where
  "oldestEntry [] acc = acc"
| "oldestEntry ((key, entry) # rest) (oldestKey, oldestTime) =
     (if lastAccessed entry < oldestTime
      then oldestEntry rest (Some key, lastAccessed entry)
      else oldestEntry rest (oldestKey, oldestTime))"

text \<open>
  \<open>oldestTime\<close> starts at the clock reading. The final test \<open>if (oldestKey)\<close> is a
  truthiness test: it fails for \<open>null\<close> and for the empty string. One put reads the clock
  in the search and again for the new entry; the two readings of one synchronous call are
  taken to be the same \<open>now\<close>.
\<close>

definition evictLeastRecentlyUsed ::
  "CacheConfig \<Rightarrow> CacheMetrics \<Rightarrow> 'a Cache \<Rightarrow> int \<Rightarrow> 'a Cache \<times> CacheMetrics"
where
  "evictLeastRecentlyUsed cfg m cache now =
     (case fst (oldestEntry cache (None, now)) of
        None \<Rightarrow> (cache, m)
      | Some oldestKey \<Rightarrow>
          if oldestKey = [] then (cache, m)
          else (AList.delete oldestKey cache, updateEvictionMetrics cfg m 1))"

definition setCachedData ::
  "CacheConfig \<Rightarrow> CacheMetrics \<Rightarrow> 'a Cache \<Rightarrow> string \<Rightarrow> 'a \<Rightarrow> int \<Rightarrow> int \<Rightarrow> 'a Cache \<times> CacheMetrics"
where
  "setCachedData cfg m cache key d ttl_ms now =
     (let (cache1, m1) =
            (if int (length cache) \<ge> maxSize cfg \<and> map_of cache key = None
             then evictLeastRecentlyUsed cfg m cache now
             else (cache, m))
      in (AList.update key
            \<lparr>data = d, timestamp = now, ttl = ttl_ms, accessCount = 1, lastAccessed = now\<rparr>
            cache1,
          m1))"

definition hasValidCacheEntry :: "'a Cache \<Rightarrow> string \<Rightarrow> int \<Rightarrow> bool" where
  "hasValidCacheEntry cache key now =
     (case map_of cache key of
        None \<Rightarrow> False
      | Some entry \<Rightarrow> \<not> isExpired entry now)"

subsection \<open>Public methods of the cache service\<close>

text \<open>
  The history service has methods named \<open>getAvailableDates\<close> and \<open>getLocationData\<close> as
  well, so those of the cache service carry the prefix \<open>cacheService_\<close>. The methods
  \<open>has...\<close> only read the maps and the clock: they return a boolean and no new state.
\<close>

definition cacheService_getAvailableDates ::
  "CacheService \<Rightarrow> string \<Rightarrow> int \<Rightarrow> int list option \<times> CacheService"
where
  "cacheService_getAvailableDates s key now =
     (let (result, cache, m) =
            getCachedData (config s) (metrics_sig s) (availableDatesCache s) key now
      in (result,
          s\<lparr>availableDatesCache := cache,
            metrics_sig := updateMetrics (config s) m (result \<noteq> None)\<rparr>))"

definition cacheService_setAvailableDates ::
  "CacheService \<Rightarrow> string \<Rightarrow> int list \<Rightarrow> int option \<Rightarrow> int \<Rightarrow> CacheService"
where
  "cacheService_setAvailableDates s key d ttl_opt now =
     (let (cache, m) =
            setCachedData (config s) (metrics_sig s) (availableDatesCache s) key d
              (case ttl_opt of None \<Rightarrow> defaultTtl (config s) | Some t \<Rightarrow> t) now
      in s\<lparr>availableDatesCache := cache, metrics_sig := m\<rparr>)"

definition cacheService_getLocationData ::
  "CacheService \<Rightarrow> string \<Rightarrow> int \<Rightarrow> LocationPoint list option \<times> CacheService"
where
  "cacheService_getLocationData s key now =
     (let (result, cache, m) =
            getCachedData (config s) (metrics_sig s) (locationDataCache s) key now
      in (result,
          s\<lparr>locationDataCache := cache,
            metrics_sig := updateMetrics (config s) m (result \<noteq> None)\<rparr>))"

definition cacheService_setLocationData ::
  "CacheService \<Rightarrow> string \<Rightarrow> LocationPoint list \<Rightarrow> int option \<Rightarrow> int \<Rightarrow> CacheService"
where
  "cacheService_setLocationData s key d ttl_opt now =
     (let (cache, m) =
            setCachedData (config s) (metrics_sig s) (locationDataCache s) key d
              (case ttl_opt of None \<Rightarrow> defaultTtl (config s) * 2 | Some t \<Rightarrow> t) now
      in s\<lparr>locationDataCache := cache, metrics_sig := m\<rparr>)"

definition hasAvailableDates :: "CacheService \<Rightarrow> string \<Rightarrow> int \<Rightarrow> bool" where
  "hasAvailableDates s key now = hasValidCacheEntry (availableDatesCache s) key now"

definition hasLocationData :: "CacheService \<Rightarrow> string \<Rightarrow> int \<Rightarrow> bool" where
  "hasLocationData s key now = hasValidCacheEntry (locationDataCache s) key now"

definition clearAll :: "CacheService \<Rightarrow> CacheService" where
  "clearAll s =
     s\<lparr>availableDatesCache := [], locationDataCache := [], metrics_sig := resetMetrics\<rparr>"

text \<open>
  \<open>removeExpiredEntries\<close> walks both maps, deleting every expired entry and counting the
  deletions; \<open>clearExpired\<close> adds the count to the eviction counter.
\<close>

definition removeExpiredEntries :: "CacheService \<Rightarrow> int \<Rightarrow> nat \<times> CacheService" where
  "removeExpiredEntries s now =
     (let expiredDates = filter (\<lambda>(key, entry). isExpired entry now) (availableDatesCache s);
          expiredLocs = filter (\<lambda>(key, entry). isExpired entry now) (locationDataCache s)
      in (length expiredDates + length expiredLocs,
          s\<lparr>availableDatesCache :=
               filter (\<lambda>(key, entry). \<not> isExpired entry now) (availableDatesCache s),
            locationDataCache :=
               filter (\<lambda>(key, entry). \<not> isExpired entry now) (locationDataCache s)\<rparr>))"

definition clearExpired :: "CacheService \<Rightarrow> int \<Rightarrow> nat \<times> CacheService" where
  "clearExpired s now =
     (let (expiredCount, s1) = removeExpiredEntries s now
      in (expiredCount,
          s1\<lparr>metrics_sig := updateEvictionMetrics (config s1) (metrics_sig s1) expiredCount\<rparr>))"

section \<open>Location history service (location-history.service.ts)\<close>

text \<open>
  Numbers that are measurements (coordinates, speeds, headings) are reals: the model is
  exact arithmetic, without the rounding, infinities and \<open>NaN\<close> of IEEE doubles. A
  \<open>Date\<close> used as a selection or as a request argument is the number of its local
  calendar day, so that \<open>setDate(getDate() + offset)\<close> is the addition of \<open>offset\<close>;
  \<open>Date.prototype.toDateString\<close> belongs to the platform and is the parameter
  \<open>toDateString\<close> of every function that builds a cache key.
\<close>

record 'a ApiResponse =
  data_r :: "'a option"
  code :: int
  message :: string

type_synonym LocationDataResponse = "LocationPoint list ApiResponse"

text \<open>
  One HTTP attempt either delivers a response body or fails (a transport error, a
  non-2xx status, or the \<open>timeout\<close> operator firing). The remote is a function from the
  attempt number to the outcome of that attempt.
\<close>

datatype 'a HttpOutcome = HttpError | HttpResponse 'a

primrec retry :: "nat \<Rightarrow> (nat \<Rightarrow> 'a HttpOutcome) \<Rightarrow> nat \<Rightarrow> 'a HttpOutcome" where
  "retry 0 source attempt = source attempt"
| "retry (Suc count) source attempt =
     (case source attempt of
        HttpError \<Rightarrow> retry count source (Suc attempt)
      | HttpResponse r \<Rightarrow> HttpResponse r)"

record Bounds =
  south :: real
  west :: real
  north :: real
  east :: real

record LocationStatistics =
  totalPoints :: nat
  totalDistance :: real
  maxSpeed :: real
  averageSpeed :: real
  duration :: int
  startTime :: int
  endTime :: int
  bounds :: Bounds

text \<open>
  An enhanced point: \<open>point\<close> holds the spread fields of the location point;
  \<open>directionText\<close> is \<open>None\<close> where the source yields \<open>undefined\<close>. The locale-dependent
  \<open>formattedTime\<close> is left out.
\<close>

record EnhancedLocationPoint =
  point :: LocationPoint
  speedKmh :: int
  directionText :: "string option"
  distanceFromPrevious :: "real option"

record PrefetchRequest =
  pf_cacheKey :: string
  pf_targetId :: int
  pf_date :: int

record LocationHistoryService =
  cacheService :: CacheService
  selectedDevice :: "int option"
  selectedDate :: "int option"
  availableDates :: "(string \<times> int list) list"
  locationData :: "LocationPoint list"
  loading :: bool
  error :: "string option"
  statistics :: "LocationStatistics option"
  lastUpdated :: "int option"

definition initialHistoryService :: LocationHistoryService where
  "initialHistoryService =
     \<lparr>cacheService = initialCacheService, selectedDevice = None, selectedDate = None,
      availableDates = [], locationData = [], loading = False, error = None,
      statistics = None, lastUpdated = None\<rparr>"

subsection \<open>Numeric helpers of the platform\<close>

text \<open>\<open>Math.round\<close> rounds to the nearest integer, a half upwards.\<close>

definition Math_round :: "real \<Rightarrow> int" where
  "Math_round x = \<lfloor>x + 1 / 2\<rfloor>"

text \<open>The remainder operator \<open>%\<close> on integers: the result has the sign of the dividend.\<close>

definition js_rem :: "int \<Rightarrow> int \<Rightarrow> int" where
  "js_rem a b = sgn a * (\<bar>a\<bar> mod \<bar>b\<bar>)"

text \<open>\<open>Math.max(...)\<close> and \<open>Math.min(...)\<close> of a first argument and the rest.\<close>

fun Math_max :: "'a::linorder \<Rightarrow> 'a list \<Rightarrow> 'a" where
  "Math_max x [] = x"
| "Math_max x (y # ys) = Math_max (max x y) ys"

fun Math_min :: "'a::linorder \<Rightarrow> 'a list \<Rightarrow> 'a" where
  "Math_min x [] = x"
| "Math_min x (y # ys) = Math_min (min x y) ys"

definition Math_atan2 :: "real \<Rightarrow> real \<Rightarrow> real" where
  "Math_atan2 y x =
     (if x > 0 then arctan (y / x)
      else if x < 0 then (if y \<ge> 0 then arctan (y / x) + pi else arctan (y / x) - pi)
      else if y > 0 then pi / 2
      else if y < 0 then - (pi / 2)
      else 0)"

text \<open>Decimal rendering of an integer, as a template literal renders a \<open>number\<close>.\<close>

fun digitsOf :: "nat \<Rightarrow> string" where
  "digitsOf n =
     (if n < 10 then [''0123456789'' ! n]
      else digitsOf (n div 10) @ [''0123456789'' ! (n mod 10)])"

definition numberToString :: "int \<Rightarrow> string" where
  "numberToString i = (if i < 0 then CHR ''-'' # digitsOf (nat (- i)) else digitsOf (nat i))"

subsection \<open>Private helpers\<close>

definition directions :: "string list" where
  "directions = [''N'', ''NE'', ''E'', ''SE'', ''S'', ''SW'', ''W'', ''NW'']"

text \<open>
  \<open>getDirectionText\<close>: reading the array at an index outside \<open>0..7\<close> gives \<open>undefined\<close>,
  here \<open>None\<close>.
\<close>

definition getDirectionText :: "real \<Rightarrow> string option" where
  "getDirectionText h =
     (let index = js_rem (Math_round (h / 45)) 8
      in if 0 \<le> index \<and> index < int (length directions)
         then Some (directions ! nat index) else None)"

definition calculateDistance :: "real \<times> real \<Rightarrow> real \<times> real \<Rightarrow> real" where
  "calculateDistance point1 point2 =
     (let R = 6371000;
          phi1 = fst point1 * pi / 180;
          phi2 = fst point2 * pi / 180;
          dphi = (fst point2 - fst point1) * pi / 180;
          dlambda = (snd point2 - snd point1) * pi / 180;
          a = sin (dphi / 2) * sin (dphi / 2)
              + cos phi1 * cos phi2 * sin (dlambda / 2) * sin (dlambda / 2);
          c = 2 * Math_atan2 (sqrt a) (sqrt (1 - a))
      in R * c)"

text \<open>
  \<open>enhanceLocationData\<close> maps over the points with their index; the point before the
  current one is carried along (\<open>None\<close> at index 0).
\<close>

fun enhanceFrom :: "LocationPoint option \<Rightarrow> LocationPoint list \<Rightarrow> EnhancedLocationPoint list" where
  "enhanceFrom prev [] = []"
| "enhanceFrom prev (p # ps) =
     \<lparr>point = p,
      speedKmh = Math_round (speed p * 3.6),
      directionText = getDirectionText (heading p),
      distanceFromPrevious =
        (case prev of
           None \<Rightarrow> None
         | Some prevPoint \<Rightarrow>
             Some (calculateDistance (lat prevPoint, lng prevPoint) (lat p, lng p)))\<rparr>
     # enhanceFrom (Some p) ps"

definition enhanceLocationData :: "LocationPoint list \<Rightarrow> EnhancedLocationPoint list" where
  "enhanceLocationData d = enhanceFrom None d"

definition updateLocationDataState ::
  "LocationHistoryService \<Rightarrow> LocationPoint list \<Rightarrow> LocationHistoryService" where
  "updateLocationDataState s locations = s\<lparr>locationData := locations\<rparr>"

definition setLoading :: "LocationHistoryService \<Rightarrow> bool \<Rightarrow> LocationHistoryService" where
  "setLoading s b = s\<lparr>loading := b\<rparr>"

definition clearError :: "LocationHistoryService \<Rightarrow> LocationHistoryService" where
  "clearError s = s\<lparr>error := None\<rparr>"

definition handleError :: "LocationHistoryService \<Rightarrow> string \<Rightarrow> LocationHistoryService" where
  "handleError s msg = s\<lparr>error := Some msg\<rparr>"

text \<open>
  \<open>updateStatistics\<close>. \<open>distanceFromPrevious || 0\<close> is the distance, or 0 where there is
  none; the two \<open>reduce\<close> calls sum from 0 leftwards. The track is not empty in the
  second equation, so \<open>Math.min(...lats)\<close> and its three siblings are taken over the
  first point's coordinate and those of the rest. The bounds object of the mapping SDK is
  the record of its south-west and north-east corners.
\<close>

fun updateStatistics ::
  "LocationHistoryService \<Rightarrow> LocationPoint list \<Rightarrow> LocationHistoryService" where
  "updateStatistics s [] = s\<lparr>statistics := None\<rparr>"
| "updateStatistics s (l # ls) =
     (let locations = l # ls;
          enhanced = enhanceLocationData locations;
          speeds = filter (\<lambda>v. v > 0) (map speedKmh enhanced);
          distances =
            map (\<lambda>p. case distanceFromPrevious p of None \<Rightarrow> 0 | Some d \<Rightarrow> d) enhanced;
          totalDistance_v = foldl (+) 0 distances;
          maxSpeed_v = (case speeds of [] \<Rightarrow> 0 | v # vs \<Rightarrow> real_of_int (Math_max v vs));
          averageSpeed_v =
            (if length speeds > 0
             then real_of_int (foldl (+) 0 speeds) / real (length speeds) else 0);
          startTime_v = utcTime l;
          endTime_v = utcTime (last locations);
          duration_v = endTime_v - startTime_v;
          restLats = map lat ls;
          restLngs = map lng ls
      in s\<lparr>statistics :=
             Some \<lparr>totalPoints = length locations,
                   totalDistance = totalDistance_v,
                   maxSpeed = maxSpeed_v,
                   averageSpeed = averageSpeed_v,
                   duration = duration_v,
                   startTime = startTime_v,
                   endTime = endTime_v,
                   bounds = \<lparr>south = Math_min (lat l) restLats,
                             west = Math_min (lng l) restLngs,
                             north = Math_max (lat l) restLats,
                             east = Math_max (lng l) restLngs\<rparr>\<rparr>\<rparr>)"

definition locationCacheKey :: "(int \<Rightarrow> string) \<Rightarrow> int \<Rightarrow> int \<Rightarrow> string" where
  "locationCacheKey toDateString targetId date =
     numberToString targetId @ ''-'' @ toDateString date"

text \<open>
  \<open>prefetchAdjacentDates\<close> returns the requests it schedules. Each request is answered
  later by \<open>prefetch_resolve\<close>: one attempt, whose data is stored in the cache, and whose
  failure is replaced by an empty result that nobody reads.
\<close>

definition prefetchAdjacentDates ::
  "(int \<Rightarrow> string) \<Rightarrow> LocationHistoryService \<Rightarrow> int \<Rightarrow> int \<Rightarrow> int \<Rightarrow> PrefetchRequest list"
where
  "prefetchAdjacentDates toDateString s targetId currentDate now =
     concat (map (\<lambda>offset.
        (let adjacentDate = currentDate + offset;
             cacheKey = locationCacheKey toDateString targetId adjacentDate
         in if \<not> hasLocationData (cacheService s) cacheKey now
            then [\<lparr>pf_cacheKey = cacheKey, pf_targetId = targetId, pf_date = adjacentDate\<rparr>]
            else [])) [- 1, 1])"

definition prefetch_resolve ::
  "LocationHistoryService \<Rightarrow> PrefetchRequest \<Rightarrow> LocationDataResponse HttpOutcome \<Rightarrow> int
     \<Rightarrow> LocationHistoryService"
where
  "prefetch_resolve s req outcome now =
     (case outcome of
        HttpError \<Rightarrow> s
      | HttpResponse response \<Rightarrow>
          s\<lparr>cacheService :=
              cacheService_setLocationData (cacheService s) (pf_cacheKey req)
                (case data_r response of None \<Rightarrow> [] | Some d \<Rightarrow> d) None now\<rparr>)"

subsection \<open>Loading a track\<close>

text \<open>
  The \<open>tap\<close> and \<open>catchError\<close> stages of the pipeline of \<open>getLocationData\<close>, and the
  whole call as seen by one subscriber: \<open>now\<close> is the clock at the call, \<open>now'\<close> the clock
  when the response is handled. The result is the emitted track, the service afterwards
  and the prefetch requests scheduled.
\<close>

definition getLocationData_tap ::
  "(int \<Rightarrow> string) \<Rightarrow> LocationHistoryService \<Rightarrow> int \<Rightarrow> int \<Rightarrow> string \<Rightarrow> LocationPoint list
     \<Rightarrow> int \<Rightarrow> LocationPoint list \<times> LocationHistoryService \<times> PrefetchRequest list"
where
  "getLocationData_tap toDateString s targetId date cacheKey locations now =
     (let s1 = s\<lparr>cacheService :=
                  cacheService_setLocationData (cacheService s) cacheKey locations None now\<rparr>;
          s2 = updateLocationDataState s1 locations;
          s3 = updateStatistics s2 locations;
          s4 = s3\<lparr>lastUpdated := Some now\<rparr>
      in (locations, s4, prefetchAdjacentDates toDateString s4 targetId date now))"

definition getLocationData_catchError ::
  "LocationHistoryService \<Rightarrow> LocationPoint list \<times> LocationHistoryService \<times> PrefetchRequest list"
where
  "getLocationData_catchError s =
     (let s1 = handleError s ''Failed to load location data'';
          s2 = updateLocationDataState s1 []
      in ([], s2, []))"

definition getLocationData ::
  "(int \<Rightarrow> string) \<Rightarrow> LocationHistoryService \<Rightarrow> int \<Rightarrow> int
     \<Rightarrow> (nat \<Rightarrow> LocationDataResponse HttpOutcome) \<Rightarrow> int \<Rightarrow> int
     \<Rightarrow> LocationPoint list \<times> LocationHistoryService \<times> PrefetchRequest list"
where
  "getLocationData toDateString s targetId date remote now now' =
     (let cacheKey = locationCacheKey toDateString targetId date;
          (cached, cs) = cacheService_getLocationData (cacheService s) cacheKey now;
          s0 = s\<lparr>cacheService := cs\<rparr>
      in case cached of
           Some c \<Rightarrow> (c, updateLocationDataState s0 c, [])
         | None \<Rightarrow>
             (let s1 = clearError (setLoading s0 True);
                  (result, s2, requests) =
                    (case retry 2 remote 0 of
                       HttpError \<Rightarrow> getLocationData_catchError s1
                     | HttpResponse response \<Rightarrow>
                         if code response \<noteq> 200 then getLocationData_catchError s1
                         else getLocationData_tap toDateString s1 targetId date cacheKey
                                (case data_r response of None \<Rightarrow> [] | Some d \<Rightarrow> d) now')
              in (result, setLoading s2 False, requests)))"

subsection \<open>Selection, clearing and refreshing\<close>

definition setSelectedDevice :: "LocationHistoryService \<Rightarrow> int option \<Rightarrow> LocationHistoryService" where
  "setSelectedDevice s deviceId = clearError (s\<lparr>selectedDevice := deviceId\<rparr>)"

definition setSelectedDate :: "LocationHistoryService \<Rightarrow> int option \<Rightarrow> LocationHistoryService" where
  "setSelectedDate s date = clearError (s\<lparr>selectedDate := date\<rparr>)"

definition clearData :: "LocationHistoryService \<Rightarrow> LocationHistoryService" where
  "clearData s =
     clearError
       (s\<lparr>selectedDevice := None, selectedDate := None, locationData := [],
          availableDates := [], statistics := None, lastUpdated := None\<rparr>)
       \<lparr>cacheService := clearAll (cacheService s)\<rparr>"

text \<open>
  \<open>refreshData\<close>: \<open>!device\<close> holds for \<open>null\<close> and for the number 0, \<open>!date\<close> for \<open>null\<close>.
  \<open>EMPTY\<close> emits nothing: the result is \<open>None\<close> and the service is as before.
\<close>

definition refreshData ::
  "(int \<Rightarrow> string) \<Rightarrow> LocationHistoryService \<Rightarrow> (nat \<Rightarrow> LocationDataResponse HttpOutcome)
     \<Rightarrow> int \<Rightarrow> int
     \<Rightarrow> LocationPoint list option \<times> LocationHistoryService \<times> PrefetchRequest list"
where
  "refreshData toDateString s remote now now' =
     (case (selectedDevice s, selectedDate s) of
        (Some device, Some date) \<Rightarrow>
          if device = 0 then (None, s, [])
          else (let s1 = s\<lparr>cacheService := clearAll (cacheService s)\<rparr>;
                    (result, s2, requests) =
                      getLocationData toDateString s1 device date remote now now'
                in (Some result, s2, requests))
      | _ \<Rightarrow> (None, s, []))"

section \<open>The compass label as the specification words it\<close>

text \<open>
  The specification's \<open>compassLabel\<close>: the heading is first normalised into \<open>[0, 360)\<close>,
  then the bucket is \<open>round(heading / 45) mod 8\<close>. This definition follows the
  specification, not the source; it is compared with \<open>getDirectionText\<close> below.
\<close>

definition normalizeHeading :: "real \<Rightarrow> real" where
  "normalizeHeading h = h - 360 * of_int \<lfloor>h / 360\<rfloor>"

definition compassLabel_spec :: "real \<Rightarrow> string" where
  "compassLabel_spec h = directions ! nat (Math_round (normalizeHeading h / 45) mod 8)"

section \<open>Derived notions used in the statements\<close>

text \<open>
  The statistics that \<open>updateStatistics\<close> stores for a track (it reads nothing of the
  service), and the prefetch requests for the two days next to \<open>date\<close> whose keys a
  cache does not validly hold at \<open>now\<close>.
\<close>

definition statisticsOf :: "LocationPoint list \<Rightarrow> LocationStatistics option" where
  "statisticsOf ls = statistics (updateStatistics initialHistoryService ls)"

definition adjacentRequests ::
  "(int \<Rightarrow> string) \<Rightarrow> CacheService \<Rightarrow> int \<Rightarrow> int \<Rightarrow> int \<Rightarrow> PrefetchRequest list" where
  "adjacentRequests toDateString c targetId date now =
     concat (map (\<lambda>d.
        if hasLocationData c (locationCacheKey toDateString targetId d) now then []
        else [\<lparr>pf_cacheKey = locationCacheKey toDateString targetId d,
               pf_targetId = targetId, pf_date = d\<rparr>]) [date - 1, date + 1])"

section \<open>Outcome of a cache read\<close>

text \<open>
  What one read of \<open>key\<close> at time \<open>now\<close> does to a cache and to the counters: \<open>r\<close> is the
  value returned, \<open>cache'\<close> and \<open>m'\<close> are the cache and the counters afterwards. A missing
  key is a miss that leaves the cache alone; a lapsed entry is deleted and is a miss; any
  other entry is returned, keeps its place, and has its access time and count updated,
  which is a hit.
\<close>

definition readOutcome ::
  "'a Cache \<Rightarrow> CacheMetrics \<Rightarrow> string \<Rightarrow> int \<Rightarrow> 'a option \<Rightarrow> 'a Cache \<Rightarrow> CacheMetrics \<Rightarrow> bool" where
  "readOutcome cache m key now r cache' m' =
     (case map_of cache key of
        None \<Rightarrow> r = None \<and> cache' = cache \<and> misses m' = misses m + 1 \<and> hits m' = hits m
      | Some e \<Rightarrow>
          if now - timestamp e > ttl e
          then r = None \<and> cache' = AList.delete key cache \<and> map_of cache' key = None
               \<and> misses m' = misses m + 1 \<and> hits m' = hits m
          else r = Some (data e)
               \<and> map_of cache' = (map_of cache)(key \<mapsto> e\<lparr>accessCount := accessCount e + 1, lastAccessed := now\<rparr>)
               \<and> map fst cache' = map fst cache
               \<and> hits m' = hits m + 1 \<and> misses m' = misses m)"

section \<open>Example runs\<close>

text \<open>
  A cache that has answered three hits and one miss: one track is stored, read three
  times, and another key is asked for once.
\<close>

definition threeHitsOneMiss :: CacheService where
  "threeHitsOneMiss =
     (let s0 = cacheService_setLocationData initialCacheService ''7-Mon Jun 03 2024'' [] None 0;
          s1 = snd (cacheService_getLocationData s0 ''7-Mon Jun 03 2024'' 1);
          s2 = snd (cacheService_getLocationData s1 ''7-Mon Jun 03 2024'' 2);
          s3 = snd (cacheService_getLocationData s2 ''7-Mon Jun 03 2024'' 3)
      in snd (cacheService_getLocationData s3 ''7-Tue Jun 04 2024'' 4))"

text \<open>A cache service holding one (empty) track, stored at time 0 with the default TTL.\<close>

definition oneTrackCached :: CacheService where
  "oneTrackCached =
     cacheService_setLocationData initialCacheService ''7-Mon Jun 03 2024'' [] None 0"

text \<open>The same, with the availability of June 2024 stored at time 0 as well.\<close>

definition bothCached :: CacheService where
  "bothCached = cacheService_setAvailableDates oneTrackCached ''7-2024-6'' [1, 3, 5] None 0"

text \<open>
  The tracks of devices 1 to 101 for one day, all stored while the clock reads 1000: one
  key more than the configured capacity of 100.
\<close>

definition tracksOfOneDay :: "string list" where
  "tracksOfOneDay = map (\<lambda>i. numberToString (int i) @ ''-Mon Jun 03 2024'') [1 ..< 102]"

definition sameInstantFill :: CacheService where
  "sameInstantFill =
     fold (\<lambda>key s. cacheService_setLocationData s key [] None 1000) tracksOfOneDay
       initialCacheService"

text \<open>
  Examples for the history service. \<open>dayLabel\<close> stands in for \<open>toDateString\<close>; the
  remote either fails every attempt or serves a given track with code 200.
\<close>

definition samplePoint :: LocationPoint where
  "samplePoint = \<lparr>utcTime = 1717400000000, lat = 30, lng = 31, speed = 10, alt = 0, dir = 0,
                   timestamp_p = ''2024-06-03 07:33:20'', heading = 90\<rparr>"

definition dayLabel :: "int \<Rightarrow> string" where
  "dayLabel d = CHR ''D'' # numberToString d"

definition remoteDown :: "nat \<Rightarrow> LocationDataResponse HttpOutcome" where
  "remoteDown attempt = HttpError"

definition remoteServes :: "LocationPoint list \<Rightarrow> nat \<Rightarrow> LocationDataResponse HttpOutcome" where
  "remoteServes d attempt = HttpResponse \<lparr>data_r = Some d, code = 200, message = ''OK''\<rparr>"

text \<open>
  The service after device 7 and day 3 were selected and the one-sample track of that day
  was loaded from the remote (called at time 10, answered at time 20).
\<close>

definition trackShownCache :: CacheService where
  "trackShownCache =
     cacheService_setLocationData
       (snd (cacheService_getLocationData initialCacheService ''7-D3'' 10))
       ''7-D3'' [samplePoint] None 20"

definition trackShown :: LocationHistoryService where
  "trackShown =
     updateStatistics
       (initialHistoryService
          \<lparr>cacheService := trackShownCache, selectedDevice := Some 7, selectedDate := Some 3,
           locationData := [samplePoint], lastUpdated := Some 20\<rparr>)
       [samplePoint]"

definition twoTracksCache :: CacheService where
  "twoTracksCache =
     (let c1 = cacheService_setAvailableDates initialCacheService ''7-2024-6'' [2, 3] None 5;
          c2 = cacheService_setLocationData c1 ''7-D2'' [samplePoint] None 10;
          c3 = cacheService_setLocationData c2 ''7-D3'' [] None 20
      in snd (cacheService_getLocationData c3 ''7-D3'' 25))"

definition twoTracksCached :: LocationHistoryService where
  "twoTracksCached =
     initialHistoryService
       \<lparr>cacheService := twoTracksCache, selectedDevice := Some 7, selectedDate := Some 3\<rparr>"

text \<open>
  The prefetch request for day 4 that the load of day 3 schedules, an answer to it whose
  body carries the failure code 500 and no data, and the service after that answer was
  handled at time 1020.
\<close>

definition dayFourRequest :: PrefetchRequest where
  "dayFourRequest = \<lparr>pf_cacheKey = ''7-D4'', pf_targetId = 7, pf_date = 4\<rparr>"

definition rejectedBody :: "LocationDataResponse HttpOutcome" where
  "rejectedBody = HttpResponse \<lparr>data_r = None, code = 500, message = ''Internal error''\<rparr>"

definition afterRejectedPrefetch :: LocationHistoryService where
  "afterRejectedPrefetch = prefetch_resolve trackShown dayFourRequest rejectedBody 1020"

section \<open>Properties of the cache service\<close>

lemma threeHitsOneMiss_counters:
  "hits (metrics_sig threeHitsOneMiss) = 3 \<and> misses (metrics_sig threeHitsOneMiss) = 1"
  by code_simp

lemma metrics_counters [simp]:
  "hits (metrics s) = hits (metrics_sig s)"
  "misses (metrics s) = misses (metrics_sig s)"
  "evictions (metrics s) = evictions (metrics_sig s)"
  by (simp_all add: metrics_def Let_def)

subsection \<open>C1: the hit rate\<close>

text \<open>
  C1, as stated, says that \<open>hitRate\<close> is the fraction \<open>hits / (hits + misses)\<close>, 0.75 after
  three hits and one miss. The computed signal multiplies the fraction by 100: after
  three hits and one miss the snapshot reports 75.
\<close>

theorem hitRate_three_hits_one_miss:
  "hits (metrics threeHitsOneMiss) = 3 \<and> misses (metrics threeHitsOneMiss) = 1
   \<and> hitRate (metrics threeHitsOneMiss) = 75
   \<and> hitRate (metrics threeHitsOneMiss) \<noteq> 3 / (3 + 1)"
  using threeHitsOneMiss_counters by (simp add: metrics_def Let_def)

text \<open>
  C1, amended: in every metrics snapshot \<open>hitRate\<close> is the percentage
  \<open>100 * hits / (hits + misses)\<close>, and 0 when \<open>hits + misses = 0\<close>; it lies between 0 and
  100.
\<close>

theorem hitRate_is_percentage:
  "hitRate (metrics s) =
     (if hits (metrics s) + misses (metrics s) = 0 then 0
      else 100 * (real (hits (metrics s)) / real (hits (metrics s) + misses (metrics s))))
   \<and> 0 \<le> hitRate (metrics s) \<and> hitRate (metrics s) \<le> 100"
proof -
  let ?h = "hits (metrics_sig s)" and ?m = "misses (metrics_sig s)"
  have eq: "hitRate (metrics s) = (if ?h + ?m = 0 then 0 else 100 * (real ?h / real (?h + ?m)))"
    by (simp add: metrics_def Let_def)
  have "real ?h \<le> real (?h + ?m)" by simp
  then have le1: "real ?h / real (?h + ?m) \<le> 1"
    by (metis divide_le_eq_1 of_nat_0_le_iff order_trans zero_le_one divide_eq_0_iff less_eq_real_def not_le)
  have ge0: "0 \<le> real ?h / real (?h + ?m)"
    by (rule divide_nonneg_nonneg) simp_all
  from le1 have "100 * (real ?h / real (?h + ?m)) \<le> 100" by linarith
  moreover from ge0 have "0 \<le> 100 * (real ?h / real (?h + ?m))" by linarith
  ultimately show ?thesis
    unfolding eq by (simp del: of_nat_add)
qed


subsection \<open>Association lists and the helpers of the cache\<close>

lemma delete_absent:
  "k \<notin> fst ` set al \<Longrightarrow> AList.delete k al = al"
  by (induction al) (auto simp: AList.delete_eq)

lemma length_delete_present:
  "distinct (map fst al) \<Longrightarrow> map_of al k = Some v \<Longrightarrow> Suc (length (AList.delete k al)) = length al"
proof (induction al)
  case Nil
  then show ?case by simp
next
  case (Cons p al)
  obtain k' v' where p: "p = (k', v')" by (cases p)
  show ?case
  proof (cases "k' = k")
    case True
    with Cons.prems p have "k \<notin> fst ` set al" by auto
    then have "AList.delete k al = al" by (rule delete_absent)
    with True p show ?thesis by (simp add: AList.delete_eq)
  next
    case False
    with Cons.prems p have "map_of al k = Some v" and "distinct (map fst al)" by auto
    with Cons.IH have "Suc (length (AList.delete k al)) = length al" by simp
    with False p show ?thesis by (simp add: AList.delete_eq)
  qed
qed

lemma map_of_filter_removed:
  assumes "distinct (map fst al)" and "map_of al k = Some v" and "\<not> P (k, v)"
  shows "map_of (filter P al) k = None"
proof -
  have "(k, v') \<in> set al \<Longrightarrow> v' = v" for v'
    using assms(1,2) by (metis map_of_is_SomeI option.inject)
  with assms(3) have "k \<notin> fst ` set (filter P al)"
    by auto
  then show ?thesis
    by (simp add: map_of_eq_None_iff)
qed

lemma getCachedData_missing:
  "map_of cache key = None \<Longrightarrow> getCachedData cfg m cache key now = (None, cache, m)"
  by (simp add: getCachedData_def)

lemma getCachedData_expired:
  "map_of cache key = Some e \<Longrightarrow> isExpired e now \<Longrightarrow>
   getCachedData cfg m cache key now = (None, AList.delete key cache, updateEvictionMetrics cfg m 1)"
  by (simp add: getCachedData_def)

lemma getCachedData_valid:
  "map_of cache key = Some e \<Longrightarrow> \<not> isExpired e now \<Longrightarrow>
   getCachedData cfg m cache key now =
     (Some (data e),
      AList.update key (e\<lparr>accessCount := accessCount e + 1, lastAccessed := now\<rparr>) cache, m)"
  by (simp add: getCachedData_def)

lemma updateMetrics_enabled:
  "enableMetrics cfg \<Longrightarrow>
   hits (updateMetrics cfg m b) = (if b then hits m + 1 else hits m) \<and>
   misses (updateMetrics cfg m b) = (if b then misses m else misses m + 1) \<and>
   evictions (updateMetrics cfg m b) = evictions m"
  by (simp add: updateMetrics_def)

lemma updateEvictionMetrics_counters [simp]:
  "hits (updateEvictionMetrics cfg m n) = hits m"
  "misses (updateEvictionMetrics cfg m n) = misses m"
  by (simp_all add: updateEvictionMetrics_def)

lemma map_fst_update_present:
  "map_of al k = Some v \<Longrightarrow> map fst (AList.update k v' al) = map fst al"
  by (induction al) (auto simp: AList.update.simps split: if_splits)


text \<open>The keys of a map stay distinct under every operation of the cache.\<close>

lemma getCachedData_keys_distinct:
  "distinct (map fst cache) \<Longrightarrow>
   distinct (map fst (fst (snd (getCachedData cfg m cache key now))))"
  by (simp add: getCachedData_def AList.distinct_update AList.distinct_delete
      split: option.splits)

lemma setCachedData_keys_distinct:
  "distinct (map fst cache) \<Longrightarrow>
   distinct (map fst (fst (setCachedData cfg m cache key d ttl_ms now)))"
  by (simp add: setCachedData_def evictLeastRecentlyUsed_def AList.distinct_update
      AList.distinct_delete split: option.splits prod.splits if_splits)

lemma filter_keys_distinct:
  "distinct (map fst cache) \<Longrightarrow> distinct (map fst (filter P cache))"
  by (simp add: distinct_map_filter)

subsection \<open>C7: what a read does\<close>

text \<open>
  C7: for every key and every read time \<open>now\<close>, with metrics enabled (as configured),
  \<open>get\<close> on either cache returns nothing when the key is missing or when
  \<open>now - timestamp > ttl\<close>; in the lapsed case the entry is deleted by this read and the
  read is counted as a miss; an entry that is present and not lapsed has its data
  returned, its \<open>lastAccessed\<close> set to \<open>now\<close>, its \<open>accessCount\<close> incremented, keeps its
  place in the map, and the read is counted as a hit. The other cache is not touched.
\<close>

theorem get_read_semantics:
  assumes "enableMetrics (config s)"
  shows "(case cacheService_getLocationData s key now of (r, s') \<Rightarrow>
            readOutcome (locationDataCache s) (metrics_sig s) key now r
              (locationDataCache s') (metrics_sig s')
            \<and> availableDatesCache s' = availableDatesCache s)
       \<and> (case cacheService_getAvailableDates s key now of (r, s') \<Rightarrow>
            readOutcome (availableDatesCache s) (metrics_sig s) key now r
              (availableDatesCache s') (metrics_sig s')
            \<and> locationDataCache s' = locationDataCache s)"
proof -
  have loc: "case cacheService_getLocationData s key now of (r, s') \<Rightarrow>
            readOutcome (locationDataCache s) (metrics_sig s) key now r
              (locationDataCache s') (metrics_sig s')
            \<and> availableDatesCache s' = availableDatesCache s"
  proof (cases "map_of (locationDataCache s) key")
    case None
    then show ?thesis using assms
      by (simp add: cacheService_getLocationData_def getCachedData_missing readOutcome_def
          updateMetrics_enabled)
  next
    case (Some e)
    show ?thesis
    proof (cases "isExpired e now")
      case True
      with Some show ?thesis using assms
        by (simp add: cacheService_getLocationData_def getCachedData_expired readOutcome_def
            updateMetrics_enabled isExpired_def AList.delete_conv')
    next
      case False
      with Some show ?thesis using assms
        by (simp add: cacheService_getLocationData_def getCachedData_valid readOutcome_def
            updateMetrics_enabled isExpired_def AList.update_conv' map_fst_update_present)
    qed
  qed
  have dates: "case cacheService_getAvailableDates s key now of (r, s') \<Rightarrow>
            readOutcome (availableDatesCache s) (metrics_sig s) key now r
              (availableDatesCache s') (metrics_sig s')
            \<and> locationDataCache s' = locationDataCache s"
  proof (cases "map_of (availableDatesCache s) key")
    case None
    then show ?thesis using assms
      by (simp add: cacheService_getAvailableDates_def getCachedData_missing readOutcome_def
          updateMetrics_enabled)
  next
    case (Some e)
    show ?thesis
    proof (cases "isExpired e now")
      case True
      with Some show ?thesis using assms
        by (simp add: cacheService_getAvailableDates_def getCachedData_expired readOutcome_def
            updateMetrics_enabled isExpired_def AList.delete_conv')
    next
      case False
      with Some show ?thesis using assms
        by (simp add: cacheService_getAvailableDates_def getCachedData_valid readOutcome_def
            updateMetrics_enabled isExpired_def AList.update_conv' map_fst_update_present)
    qed
  qed
  from loc dates show ?thesis by simp
qed


lemma oneTrackCached_entry:
  "enableMetrics (config oneTrackCached) \<and>
   distinct (map fst (locationDataCache oneTrackCached)) \<and>
   map_of (locationDataCache oneTrackCached) ''7-Mon Jun 03 2024'' =
     Some \<lparr>data = [], timestamp = 0, ttl = 1200000, accessCount = 1, lastAccessed = 0\<rparr>"
  by code_simp

theorem get_read_semantics_witness:
  "enableMetrics (config oneTrackCached)
   \<and> (case cacheService_getLocationData oneTrackCached ''7-Mon Jun 03 2024'' 1200001 of
        (r, s') \<Rightarrow> r = None \<and> map_of (locationDataCache s') ''7-Mon Jun 03 2024'' = None
                 \<and> misses (metrics_sig s') = misses (metrics_sig oneTrackCached) + 1)
   \<and> (case cacheService_getLocationData oneTrackCached ''7-Mon Jun 03 2024'' 1200000 of
        (r, s') \<Rightarrow> r = Some []
                 \<and> map_option lastAccessed (map_of (locationDataCache s') ''7-Mon Jun 03 2024'')
                     = Some 1200000
                 \<and> map_option accessCount (map_of (locationDataCache s') ''7-Mon Jun 03 2024'')
                     = Some 2
                 \<and> hits (metrics_sig s') = hits (metrics_sig oneTrackCached) + 1)"
proof -
  have h: "enableMetrics (config oneTrackCached)"
    using oneTrackCached_entry by simp
  have e: "map_of (locationDataCache oneTrackCached) ''7-Mon Jun 03 2024'' =
     Some \<lparr>data = [], timestamp = 0, ttl = 1200000, accessCount = 1, lastAccessed = 0\<rparr>"
    using oneTrackCached_entry by simp
  note lapsed = get_read_semantics [OF h, of "''7-Mon Jun 03 2024''" 1200001, THEN conjunct1]
  note fresh = get_read_semantics [OF h, of "''7-Mon Jun 03 2024''" 1200000, THEN conjunct1]
  have a: "case cacheService_getLocationData oneTrackCached ''7-Mon Jun 03 2024'' 1200001 of
        (r, s') \<Rightarrow> r = None \<and> map_of (locationDataCache s') ''7-Mon Jun 03 2024'' = None
                 \<and> misses (metrics_sig s') = misses (metrics_sig oneTrackCached) + 1"
    using lapsed e by (auto simp: readOutcome_def split: prod.splits)
  have b: "case cacheService_getLocationData oneTrackCached ''7-Mon Jun 03 2024'' 1200000 of
        (r, s') \<Rightarrow> r = Some []
                 \<and> map_option lastAccessed (map_of (locationDataCache s') ''7-Mon Jun 03 2024'')
                     = Some 1200000
                 \<and> map_option accessCount (map_of (locationDataCache s') ''7-Mon Jun 03 2024'')
                     = Some 2
                 \<and> hits (metrics_sig s') = hits (metrics_sig oneTrackCached) + 1"
    using fresh e by (auto simp: readOutcome_def split: prod.splits)
  from h a b show ?thesis by simp
qed



subsection \<open>C10: the has-key check on an expired entry\<close>

lemma expired_entry_generic:
  assumes "distinct (map fst cache)" and "map_of cache key = Some e" and "isExpired e now"
  shows "\<not> hasValidCacheEntry cache key now"
    and "getCachedData cfg m cache key now
           = (None, AList.delete key cache, updateEvictionMetrics cfg m 1)"
    and "map_of (AList.delete key cache) key = None"
    and "Suc (length (AList.delete key cache)) = length cache"
    and "map_of (filter (\<lambda>(k, entry). \<not> isExpired entry now) cache) key = None"
    and "length (filter (\<lambda>(k, entry). \<not> isExpired entry now) cache) < length cache"
    and "0 < length (filter (\<lambda>(k, entry). isExpired entry now) cache)"
proof -
  let ?keep = "\<lambda>(k, entry). \<not> isExpired entry now"
  show "\<not> hasValidCacheEntry cache key now"
    using assms(2,3) by (simp add: hasValidCacheEntry_def)
  show "getCachedData cfg m cache key now
           = (None, AList.delete key cache, updateEvictionMetrics cfg m 1)"
    using assms(2,3) by (rule getCachedData_expired)
  show "map_of (AList.delete key cache) key = None"
    by (simp add: AList.delete_conv')
  show "Suc (length (AList.delete key cache)) = length cache"
    using assms(1,2) by (rule length_delete_present)
  show "map_of (filter ?keep cache) key = None"
    by (rule map_of_filter_removed [OF assms(1,2)]) (simp add: assms(3))
  have mem: "(key, e) \<in> set cache"
    using assms(2) by (rule map_of_SomeD)
  moreover have "\<not> ?keep (key, e)"
    using assms(3) by simp
  ultimately show "length (filter ?keep cache) < length cache"
    by (metis length_filter_less)
  from mem assms(3)
  have "(key, e) \<in> set (filter (\<lambda>(k, entry). isExpired entry now) cache)"
    by simp
  then show "0 < length (filter (\<lambda>(k, entry). isExpired entry now) cache)"
    by (metis length_greater_0_conv empty_iff list.set(1))
qed

lemma bothCached_entries:
  "distinct (map fst (locationDataCache bothCached)) \<and>
   map_of (locationDataCache bothCached) ''7-Mon Jun 03 2024'' =
     Some \<lparr>data = [], timestamp = 0, ttl = 1200000, accessCount = 1, lastAccessed = 0\<rparr> \<and>
   distinct (map fst (availableDatesCache bothCached)) \<and>
   map_of (availableDatesCache bothCached) ''7-2024-6'' =
     Some \<lparr>data = [1, 3, 5], timestamp = 0, ttl = 600000, accessCount = 1, lastAccessed = 0\<rparr> \<and>
   length (locationDataCache bothCached) = 1 \<and> length (availableDatesCache bothCached) = 1"
  by code_simp

text \<open>
  C10: for every key whose entry has expired at time \<open>now\<close>, in either cache, the has-key
  check returns false. The check is a query: it computes a boolean from the cache and the
  clock and writes neither the cache nor the counters, so the entry is still in the map
  after it. The entry leaves the map with the next \<open>get\<close> on that key, which returns
  nothing and makes the map one entry smaller, or with the next sweep, which removes it
  and reports at least one removal.
\<close>

theorem has_expired_is_false_and_lazy:
  "(distinct (map fst (locationDataCache s)) \<and> map_of (locationDataCache s) key = Some e
      \<and> isExpired e now \<longrightarrow>
      \<not> hasLocationData s key now
      \<and> (case cacheService_getLocationData s key now of
           (r, s') \<Rightarrow> r = None \<and> map_of (locationDataCache s') key = None
                    \<and> Suc (length (locationDataCache s')) = length (locationDataCache s))
      \<and> (case clearExpired s now of
           (n, s') \<Rightarrow> 0 < n \<and> map_of (locationDataCache s') key = None
                    \<and> length (locationDataCache s') < length (locationDataCache s)))
   \<and> (distinct (map fst (availableDatesCache s)) \<and> map_of (availableDatesCache s) key = Some e'
      \<and> isExpired e' now \<longrightarrow>
      \<not> hasAvailableDates s key now
      \<and> (case cacheService_getAvailableDates s key now of
           (r, s') \<Rightarrow> r = None \<and> map_of (availableDatesCache s') key = None
                    \<and> Suc (length (availableDatesCache s')) = length (availableDatesCache s))
      \<and> (case clearExpired s now of
           (n, s') \<Rightarrow> 0 < n \<and> map_of (availableDatesCache s') key = None
                    \<and> length (availableDatesCache s') < length (availableDatesCache s)))"
proof (intro conjI impI)
  assume a: "distinct (map fst (locationDataCache s)) \<and> map_of (locationDataCache s) key = Some e
      \<and> isExpired e now"
  note g = expired_entry_generic [of "locationDataCache s" key e now]
  from a show "\<not> hasLocationData s key now"
    by (simp add: hasLocationData_def g(1))
  from a show "case cacheService_getLocationData s key now of
           (r, s') \<Rightarrow> r = None \<and> map_of (locationDataCache s') key = None
                    \<and> Suc (length (locationDataCache s')) = length (locationDataCache s)"
    by (simp add: cacheService_getLocationData_def g(2) g(3) g(4))
  from a have "filter (\<lambda>(k, entry). isExpired entry now) (locationDataCache s) \<noteq> []"
    using g(7) by simp
  with a show "case clearExpired s now of
           (n, s') \<Rightarrow> 0 < n \<and> map_of (locationDataCache s') key = None
                    \<and> length (locationDataCache s') < length (locationDataCache s)"
    by (simp add: clearExpired_def removeExpiredEntries_def Let_def g(5) g(6))
next
  assume a: "distinct (map fst (availableDatesCache s)) \<and> map_of (availableDatesCache s) key = Some e'
      \<and> isExpired e' now"
  note g = expired_entry_generic [of "availableDatesCache s" key e' now]
  from a show "\<not> hasAvailableDates s key now"
    by (simp add: hasAvailableDates_def g(1))
  from a show "case cacheService_getAvailableDates s key now of
           (r, s') \<Rightarrow> r = None \<and> map_of (availableDatesCache s') key = None
                    \<and> Suc (length (availableDatesCache s')) = length (availableDatesCache s)"
    by (simp add: cacheService_getAvailableDates_def g(2) g(3) g(4))
  from a have "filter (\<lambda>(k, entry). isExpired entry now) (availableDatesCache s) \<noteq> []"
    using g(7) by simp
  with a show "case clearExpired s now of
           (n, s') \<Rightarrow> 0 < n \<and> map_of (availableDatesCache s') key = None
                    \<and> length (availableDatesCache s') < length (availableDatesCache s)"
    by (simp add: clearExpired_def removeExpiredEntries_def Let_def g(5) g(6))
qed

theorem has_expired_is_false_and_lazy_witness:
  "isExpired \<lparr>data = ([] :: LocationPoint list), timestamp = 0, ttl = 1200000, accessCount = 1,
               lastAccessed = 0\<rparr> 1200001
   \<and> isExpired \<lparr>data = [1, 3, 5 :: int], timestamp = 0, ttl = 600000, accessCount = 1,
                 lastAccessed = 0\<rparr> 1200001
   \<and> \<not> hasLocationData bothCached ''7-Mon Jun 03 2024'' 1200001
   \<and> length (locationDataCache bothCached) = 1
   \<and> length (locationDataCache
        (snd (cacheService_getLocationData bothCached ''7-Mon Jun 03 2024'' 1200001))) = 0
   \<and> length (locationDataCache (snd (clearExpired bothCached 1200001))) = 0
   \<and> \<not> hasAvailableDates bothCached ''7-2024-6'' 1200001
   \<and> length (availableDatesCache bothCached) = 1
   \<and> length (availableDatesCache
        (snd (cacheService_getAvailableDates bothCached ''7-2024-6'' 1200001))) = 0
   \<and> length (availableDatesCache (snd (clearExpired bothCached 1200001))) = 0"
proof -
  let ?e = "\<lparr>data = ([] :: LocationPoint list), timestamp = 0, ttl = 1200000, accessCount = 1,
             lastAccessed = 0\<rparr>"
  let ?e' = "\<lparr>data = [1, 3, 5 :: int], timestamp = 0, ttl = 600000, accessCount = 1,
              lastAccessed = 0\<rparr>"
  have x: "isExpired ?e 1200001" and x': "isExpired ?e' 1200001"
    by (simp_all add: isExpired_def)
  note loc = has_expired_is_false_and_lazy
      [of bothCached "''7-Mon Jun 03 2024''" ?e 1200001, THEN conjunct1, rule_format]
  note dates = has_expired_is_false_and_lazy
      [of bothCached "''7-2024-6''" _ 1200001 ?e', THEN conjunct2, rule_format]
  have l: "\<not> hasLocationData bothCached ''7-Mon Jun 03 2024'' 1200001
   \<and> length (locationDataCache
        (snd (cacheService_getLocationData bothCached ''7-Mon Jun 03 2024'' 1200001))) = 0
   \<and> length (locationDataCache (snd (clearExpired bothCached 1200001))) = 0"
    using loc bothCached_entries x by (auto split: prod.splits)
  have d: "\<not> hasAvailableDates bothCached ''7-2024-6'' 1200001
   \<and> length (availableDatesCache
        (snd (cacheService_getAvailableDates bothCached ''7-2024-6'' 1200001))) = 0
   \<and> length (availableDatesCache (snd (clearExpired bothCached 1200001))) = 0"
    using dates bothCached_entries x' by (auto split: prod.splits)
  from l d x x' bothCached_entries show ?thesis
    by simp
qed


subsection \<open>C6: eviction at capacity\<close>

lemma tracksOfOneDay_distinct: "distinct tracksOfOneDay \<and> length tracksOfOneDay = 101"
  by code_simp

lemma update_absent:
  "k \<notin> fst ` set al \<Longrightarrow> AList.update k v al = al @ [(k, v)]"
  by (induction al) (auto simp: AList.update.simps)

lemma oldestEntry_none_older:
  "\<forall>(k, e) \<in> set cache. t \<le> lastAccessed e \<Longrightarrow> oldestEntry cache (ok, t) = (ok, t)"
  by (induction cache) auto

lemma setCachedData_none_older:
  assumes "\<forall>(k, e) \<in> set cache. now \<le> lastAccessed e"
  shows "setCachedData cfg m cache key d ttl_ms now =
           (AList.update key
              \<lparr>data = d, timestamp = now, ttl = ttl_ms, accessCount = 1, lastAccessed = now\<rparr>
              cache, m)"
  using oldestEntry_none_older [OF assms, of None]
  by (simp add: setCachedData_def evictLeastRecentlyUsed_def)

lemma fill_at_one_instant:
  assumes "distinct ks"
    and "set ks \<inter> fst ` set (locationDataCache s) = {}"
    and "\<forall>(k, e) \<in> set (locationDataCache s). now \<le> lastAccessed e"
  shows "map fst (locationDataCache
            (fold (\<lambda>key s. cacheService_setLocationData s key [] None now) ks s))
           = map fst (locationDataCache s) @ ks
       \<and> metrics_sig (fold (\<lambda>key s. cacheService_setLocationData s key [] None now) ks s)
           = metrics_sig s
       \<and> config (fold (\<lambda>key s. cacheService_setLocationData s key [] None now) ks s)
           = config s"
  using assms
proof (induction ks arbitrary: s)
  case Nil
  then show ?case by simp
next
  case (Cons k ks)
  let ?s1 = "cacheService_setLocationData s k [] None now"
  let ?entry = "\<lparr>data = ([] :: LocationPoint list), timestamp = now,
                 ttl = defaultTtl (config s) * 2, accessCount = 1, lastAccessed = now\<rparr>"
  from Cons.prems(2) have absent: "k \<notin> fst ` set (locationDataCache s)"
    by auto
  have s1: "?s1 = s\<lparr>locationDataCache := locationDataCache s @ [(k, ?entry)]\<rparr>"
    using setCachedData_none_older [OF Cons.prems(3)] update_absent [OF absent]
    by (simp add: cacheService_setLocationData_def)
  have "distinct ks"
    using Cons.prems(1) by simp
  moreover have "set ks \<inter> fst ` set (locationDataCache ?s1) = {}"
    using Cons.prems(1,2) by (auto simp: s1)
  moreover have "\<forall>(k, e) \<in> set (locationDataCache ?s1). now \<le> lastAccessed e"
    using Cons.prems(3) by (auto simp: s1)
  ultimately have "map fst (locationDataCache
            (fold (\<lambda>key s. cacheService_setLocationData s key [] None now) ks ?s1))
           = map fst (locationDataCache ?s1) @ ks
       \<and> metrics_sig (fold (\<lambda>key s. cacheService_setLocationData s key [] None now) ks ?s1)
           = metrics_sig ?s1
       \<and> config (fold (\<lambda>key s. cacheService_setLocationData s key [] None now) ks ?s1)
           = config ?s1"
    by (rule Cons.IH)
  then show ?case
    by (simp add: s1)
qed

text \<open>
  What the search of \<open>evictLeastRecentlyUsed\<close> returns: either no entry is older than the
  starting time and the accumulator comes back unchanged, or the result is the first entry,
  in insertion order, among those with the least \<open>lastAccessed\<close>. A put of a new key into
  a full cache that holds an entry older than the clock reading therefore evicts exactly
  that entry and keeps the size.
\<close>

lemma oldestEntry_result:
  "(\<forall>(k, e) \<in> set cache. t0 \<le> lastAccessed e) \<and> oldestEntry cache (ok, t0) = (ok, t0)
   \<or> (\<exists>pre k e post.
         cache = pre @ (k, e) # post
         \<and> oldestEntry cache (ok, t0) = (Some k, lastAccessed e)
         \<and> lastAccessed e < t0
         \<and> (\<forall>(k', e') \<in> set pre. lastAccessed e < lastAccessed e')
         \<and> (\<forall>(k', e') \<in> set post. lastAccessed e \<le> lastAccessed e'))"
proof (induction cache arbitrary: ok t0)
  case Nil
  then show ?case by simp
next
  case (Cons p rest)
  obtain k1 e1 where p: "p = (k1, e1)" by (cases p)
  show ?case
  proof (cases "lastAccessed e1 < t0")
    case True
    from Cons.IH [where ok = "Some k1" and ?t0.0 = "lastAccessed e1"]
    show ?thesis
    proof (elim disjE conjE exE)
      assume all: "\<forall>(k, e) \<in> set rest. lastAccessed e1 \<le> lastAccessed e"
        and res: "oldestEntry rest (Some k1, lastAccessed e1) = (Some k1, lastAccessed e1)"
      have "p # rest = [] @ (k1, e1) # rest" using p by simp
      moreover have "oldestEntry (p # rest) (ok, t0) = (Some k1, lastAccessed e1)"
        using p True res by simp
      ultimately show ?thesis
        using True all by (intro disjI2 exI [of _ "[]"] exI [of _ k1] exI [of _ e1] exI [of _ rest]) simp
    next
      fix pre k e post
      assume split: "rest = pre @ (k, e) # post"
        and res: "oldestEntry rest (Some k1, lastAccessed e1) = (Some k, lastAccessed e)"
        and lt: "lastAccessed e < lastAccessed e1"
        and before: "\<forall>(k', e') \<in> set pre. lastAccessed e < lastAccessed e'"
        and after: "\<forall>(k', e') \<in> set post. lastAccessed e \<le> lastAccessed e'"
      have "p # rest = (p # pre) @ (k, e) # post" using split by simp
      moreover have "oldestEntry (p # rest) (ok, t0) = (Some k, lastAccessed e)"
        using p True res by simp
      moreover have "lastAccessed e < t0" using lt True by simp
      moreover have "\<forall>(k', e') \<in> set (p # pre). lastAccessed e < lastAccessed e'"
        using before lt p by simp
      ultimately show ?thesis
        using after by blast
    qed
  next
    case False
    from Cons.IH [where ok = ok and ?t0.0 = t0]
    show ?thesis
    proof (elim disjE conjE exE)
      assume all: "\<forall>(k, e) \<in> set rest. t0 \<le> lastAccessed e"
        and res: "oldestEntry rest (ok, t0) = (ok, t0)"
      then show ?thesis using p False by simp
    next
      fix pre k e post
      assume split: "rest = pre @ (k, e) # post"
        and res: "oldestEntry rest (ok, t0) = (Some k, lastAccessed e)"
        and lt: "lastAccessed e < t0"
        and before: "\<forall>(k', e') \<in> set pre. lastAccessed e < lastAccessed e'"
        and after: "\<forall>(k', e') \<in> set post. lastAccessed e \<le> lastAccessed e'"
      have "p # rest = (p # pre) @ (k, e) # post" using split by simp
      moreover have "oldestEntry (p # rest) (ok, t0) = (Some k, lastAccessed e)"
        using p False res by simp
      moreover have "\<forall>(k', e') \<in> set (p # pre). lastAccessed e < lastAccessed e'"
        using before lt p False by simp
      ultimately show ?thesis
        using after lt by blast
    qed
  qed
qed

lemma put_at_capacity_evicts_least_recent:
  assumes keys: "distinct (map fst cache)"
    and full: "int (length cache) \<ge> maxSize cfg"
    and new: "map_of cache key = None"
    and older: "\<exists>(k, e) \<in> set cache. lastAccessed e < now"
    and named: "[] \<notin> fst ` set cache"
  shows "\<exists>pre k e post.
           cache = pre @ (k, e) # post
           \<and> (\<forall>(k', e') \<in> set pre. lastAccessed e < lastAccessed e')
           \<and> (\<forall>(k', e') \<in> set post. lastAccessed e \<le> lastAccessed e')
           \<and> k \<noteq> key
           \<and> setCachedData cfg m cache key d ttl_ms now =
               (pre @ post @ [(key, \<lparr>data = d, timestamp = now, ttl = ttl_ms, accessCount = 1,
                                      lastAccessed = now\<rparr>)],
                updateEvictionMetrics cfg m 1)
           \<and> length (fst (setCachedData cfg m cache key d ttl_ms now)) = length cache"
proof -
  from oldestEntry_result [of cache now None] older
  obtain pre k e post where split: "cache = pre @ (k, e) # post"
    and res: "oldestEntry cache (None, now) = (Some k, lastAccessed e)"
    and before: "\<forall>(k', e') \<in> set pre. lastAccessed e < lastAccessed e'"
    and after: "\<forall>(k', e') \<in> set post. lastAccessed e \<le> lastAccessed e'"
    by fastforce
  from split named have nonempty: "k \<noteq> []"
    by force
  from split new have differs: "k \<noteq> key"
    by (auto simp: map_of_eq_None_iff image_iff)
  from keys split have "k \<notin> fst ` set pre" and "k \<notin> fst ` set post"
    by auto
  then have del: "AList.delete k cache = pre @ post"
    by (simp add: split AList.delete_eq filter_id_conv) (auto simp: delete_absent [unfolded AList.delete_eq])
  from new have "key \<notin> fst ` set cache"
    by (simp add: map_of_eq_None_iff)
  with split have "key \<notin> fst ` set (pre @ post)"
    by auto
  then have upd: "AList.update key v (pre @ post) = pre @ post @ [(key, v)]" for v
    by (simp add: update_absent)
  have "setCachedData cfg m cache key d ttl_ms now =
               (pre @ post @ [(key, \<lparr>data = d, timestamp = now, ttl = ttl_ms, accessCount = 1,
                                      lastAccessed = now\<rparr>)],
                updateEvictionMetrics cfg m 1)"
    using full new res nonempty
    by (simp add: setCachedData_def evictLeastRecentlyUsed_def del upd)
  with split before after differs show ?thesis
    by (intro exI [of _ pre] exI [of _ k] exI [of _ e] exI [of _ post]) simp
qed

text \<open>
  C6 says that a put of a new key into a full cache evicts exactly one entry, so that
  \<open>maxSize + 1\<close> distinct keys leave \<open>maxSize\<close> entries. \<open>evictLeastRecentlyUsed\<close> starts
  its search with \<open>oldestTime = Date.now()\<close> and accepts an entry only if its
  \<open>lastAccessed\<close> is strictly smaller, so entries last touched at the current clock reading
  are never chosen. Here 101 tracks are stored at one clock reading into the service as
  configured (capacity 100): nothing is evicted and 101 entries remain.
\<close>

theorem same_instant_fill_exceeds_capacity:
  "maxSize (config sameInstantFill) = 100
   \<and> length (locationDataCache sameInstantFill) = 101
   \<and> evictions (metrics_sig sameInstantFill) = 0"
proof -
  have "map fst (locationDataCache sameInstantFill) = tracksOfOneDay
      \<and> metrics_sig sameInstantFill = metrics_sig initialCacheService
      \<and> config sameInstantFill = config initialCacheService"
    unfolding sameInstantFill_def
    using fill_at_one_instant [of tracksOfOneDay initialCacheService 1000] tracksOfOneDay_distinct
    by (simp add: initialCacheService_def)
  moreover have "length (map fst (locationDataCache sameInstantFill))
      = length (locationDataCache sameInstantFill)"
    by simp
  ultimately show ?thesis
    using tracksOfOneDay_distinct
    by (simp add: initialCacheService_def initialConfig_def zeroMetrics_def del: length_map)
qed



section \<open>Properties of the history service\<close>

subsection \<open>C5: the compass label\<close>

lemma Math_round_add_int: "Math_round (x + of_int k) = Math_round x + k"
proof -
  have "x + of_int k + 1 / 2 = (x + 1 / 2) + of_int k"
    by simp
  then show ?thesis
    unfolding Math_round_def by (simp only: floor_add_int)
qed

lemma normalizeHeading_range: "0 \<le> normalizeHeading h \<and> normalizeHeading h < 360"
proof -
  have "of_int \<lfloor>h / 360\<rfloor> \<le> h / 360" and "h / 360 < of_int \<lfloor>h / 360\<rfloor> + 1"
    by linarith+
  then show ?thesis
    unfolding normalizeHeading_def by (simp add: field_simps)
qed

lemma compassLabel_spec_eq: "compassLabel_spec h = directions ! nat (Math_round (h / 45) mod 8)"
proof -
  have "normalizeHeading h / 45 = h / 45 + of_int (- 8 * \<lfloor>h / 360\<rfloor>)"
    by (simp add: normalizeHeading_def field_simps)
  then have "Math_round (normalizeHeading h / 45) = Math_round (h / 45) + (- 8 * \<lfloor>h / 360\<rfloor>)"
    by (simp only: Math_round_add_int)
  then have "Math_round (normalizeHeading h / 45) mod 8
      = (Math_round (h / 45) + 8 * (- \<lfloor>h / 360\<rfloor>)) mod 8"
    by simp
  also have "\<dots> = Math_round (h / 45) mod 8"
    by (rule mod_mult_self2)
  finally have "Math_round (normalizeHeading h / 45) mod 8 = Math_round (h / 45) mod 8" .
  then show ?thesis
    by (simp add: compassLabel_spec_def)
qed

lemma js_rem_nonneg: "0 \<le> a \<Longrightarrow> js_rem a 8 = a mod 8"
  by (cases "a = 0") (simp_all add: js_rem_def)

lemma getDirectionText_nonneg_bucket:
  assumes "0 \<le> Math_round (h / 45)"
  shows "getDirectionText h = Some (directions ! nat (Math_round (h / 45) mod 8))"
  using assms by (simp add: getDirectionText_def js_rem_nonneg directions_def)

lemma Math_round_nonneg: "- 45 / 2 \<le> h \<Longrightarrow> 0 \<le> Math_round (h / 45)"
  by (simp add: Math_round_def)

text \<open>
  C5, as stated, covers negative headings: the heading is to be normalised first, so that
  the label of \<open>h\<close> and of \<open>h + 360\<close> agree and the result is always one of the eight
  labels. \<open>getDirectionText\<close> does not normalise, and \<open>%\<close> keeps the sign of a negative
  quotient: a heading of -45 degrees indexes the array at -1 and yields \<open>undefined\<close>, while
  315 degrees yields NW.
\<close>

theorem getDirectionText_minus_45:
  "getDirectionText (- 45) = None \<and> getDirectionText (- 45 + 360) = Some ''NW''"
  by (simp add: getDirectionText_def Math_round_def js_rem_def directions_def)

text \<open>
  C5, amended: for every heading \<open>h \<ge> -22.5\<close> (every heading of the documented range
  0 to 360 and every larger one) the label is entry \<open>round(h / 45) mod 8\<close> of the eight
  labels, computed without normalisation; it equals the label the specification defines,
  it is the same for \<open>h\<close> and \<open>h + 360\<close>, and it is one of the eight labels.
\<close>

theorem getDirectionText_from_minus_22_5:
  assumes "- 45 / 2 \<le> h"
  shows "getDirectionText h = Some (directions ! nat (Math_round (h / 45) mod 8))
       \<and> getDirectionText h = Some (compassLabel_spec h)
       \<and> getDirectionText (h + 360) = getDirectionText h
       \<and> (\<exists>l \<in> set directions. getDirectionText h = Some l)"
proof -
  from assms have r: "0 \<le> Math_round (h / 45)"
    by (rule Math_round_nonneg)
  then have a: "getDirectionText h = Some (directions ! nat (Math_round (h / 45) mod 8))"
    by (rule getDirectionText_nonneg_bucket)
  have "(h + 360) / 45 = h / 45 + of_int 8"
    by simp
  then have shift: "Math_round ((h + 360) / 45) = Math_round (h / 45) + 8"
    by (simp only: Math_round_add_int)
  with r have "getDirectionText (h + 360)
      = Some (directions ! nat ((Math_round (h / 45) + 8) mod 8))"
    by (simp add: getDirectionText_nonneg_bucket)
  with a have c: "getDirectionText (h + 360) = getDirectionText h"
    by simp
  have "nat (Math_round (h / 45) mod 8) < length directions"
    by (simp add: directions_def nat_less_iff)
  then have "directions ! nat (Math_round (h / 45) mod 8) \<in> set directions"
    by (rule nth_mem)
  with a have d: "\<exists>l \<in> set directions. getDirectionText h = Some l"
    by simp
  from a c d show ?thesis
    by (simp add: compassLabel_spec_eq)
qed

theorem getDirectionText_from_minus_22_5_witness:
  "- 45 / 2 \<le> (100 :: real)
   \<and> getDirectionText 100 = Some ''E'' \<and> getDirectionText (100 + 360) = Some ''E''
   \<and> compassLabel_spec 100 = ''E''"
proof -
  have h: "- 45 / 2 \<le> (100 :: real)" by simp
  have r: "Math_round (20 / 9) = 2"
    by (simp add: Math_round_def)
  note t = getDirectionText_from_minus_22_5 [OF h]
  from t [THEN conjunct1] have e: "getDirectionText 100 = Some ''E''"
    by (simp add: r directions_def)
  from t [THEN conjunct2, THEN conjunct1] e have l: "compassLabel_spec 100 = ''E''"
    by simp
  from t [THEN conjunct2, THEN conjunct2, THEN conjunct1] e
  have p: "getDirectionText (100 + 360) = Some ''E''"
    by (simp only:)
  from h e p l show ?thesis
    by (simp only: simp_thms)
qed


subsection \<open>C8: statistics of a track\<close>

lemma foldl_plus_sum_list: "foldl (+) a xs = a + sum_list xs" for a :: "'a::monoid_add"
  by (induction xs arbitrary: a) (simp_all add: add.assoc)

lemma speedKmh_enhanceFrom:
  "map speedKmh (enhanceFrom prev ps) = map (\<lambda>q. Math_round (speed q * 3.6)) ps"
  by (induction ps arbitrary: prev) simp_all

lemma statistics_single:
  "statistics (updateStatistics s [p]) =
     Some \<lparr>totalPoints = 1, totalDistance = 0,
           maxSpeed = real_of_int (max 0 (Math_round (speed p * 3.6))),
           averageSpeed = real_of_int (max 0 (Math_round (speed p * 3.6))),
           duration = 0, startTime = utcTime p, endTime = utcTime p,
           bounds = \<lparr>south = lat p, west = lng p, north = lat p, east = lng p\<rparr>\<rparr>"
  by (simp add: enhanceLocationData_def Let_def max_def)

lemma averageSpeed_general:
  "map_option averageSpeed (statistics (updateStatistics s (p # ps))) =
     Some (let speeds = filter (\<lambda>v. 0 < v) (map (\<lambda>q. Math_round (speed q * 3.6)) (p # ps))
           in if speeds = [] then 0
              else real_of_int (sum_list speeds) / real (length speeds))"
proof -
  have "map speedKmh (enhanceLocationData (p # ps))
      = map (\<lambda>q. Math_round (speed q * 3.6)) (p # ps)"
    unfolding enhanceLocationData_def by (rule speedKmh_enhanceFrom)
  then show ?thesis
    by (simp add: Let_def foldl_plus_sum_list del: enhanceFrom.simps map_eq_conv list.map)
qed

text \<open>
  C8, as stated, says that for a one-sample track \<open>maxSpeed\<close> and \<open>averageSpeed\<close> are the
  sample's speed. The statistics are computed from \<open>speedKmh\<close>, the speed times 3.6
  rounded to an integer: a sample with speed 10 gives 36 for both.
\<close>

theorem single_sample_speed_in_kmh:
  "map_option maxSpeed (statistics (updateStatistics initialHistoryService [samplePoint])) = Some 36
   \<and> map_option averageSpeed (statistics (updateStatistics initialHistoryService [samplePoint]))
       = Some 36
   \<and> speed samplePoint = 10"
  by (simp add: statistics_single samplePoint_def Math_round_def del: updateStatistics.simps)

text \<open>
  C8, amended: the empty track gives no statistics (\<open>null\<close>). A track of exactly one
  sample gives \<open>totalDistance = 0\<close>, \<open>duration = 0\<close> and
  \<open>maxSpeed = averageSpeed = round(speed * 3.6)\<close> when that is positive, 0 otherwise.
  For every non-empty track \<open>averageSpeed\<close> is the mean of the values
  \<open>round(speed * 3.6)\<close> that are positive, and 0 when none is.
\<close>

theorem statistics_of_track:
  "statistics (updateStatistics s []) = None
   \<and> statistics (updateStatistics s [p]) =
       Some \<lparr>totalPoints = 1, totalDistance = 0,
             maxSpeed = real_of_int (max 0 (Math_round (speed p * 3.6))),
             averageSpeed = real_of_int (max 0 (Math_round (speed p * 3.6))),
             duration = 0, startTime = utcTime p, endTime = utcTime p,
             bounds = \<lparr>south = lat p, west = lng p, north = lat p, east = lng p\<rparr>\<rparr>
   \<and> map_option averageSpeed (statistics (updateStatistics s (p # ps))) =
       Some (let speeds = filter (\<lambda>v. 0 < v) (map (\<lambda>q. Math_round (speed q * 3.6)) (p # ps))
             in if speeds = [] then 0
                else real_of_int (sum_list speeds) / real (length speeds))"
proof (intro conjI)
  show "statistics (updateStatistics s []) = None"
    by simp
qed (rule statistics_single, rule averageSpeed_general)


subsection \<open>C3: selecting a device\<close>

text \<open>
  C3, as stated, says that \<open>setDevice\<close> also resets the selected date, the current track
  and the statistics. \<open>setSelectedDevice\<close> writes the device and clears the error, nothing
  else (the calendar component resets the date itself, by a call of \<open>setSelectedDate\<close>):
  with a track shown for day 3, selecting device 8 leaves date, track and statistics.
\<close>

theorem setSelectedDevice_keeps_track:
  "selectedDate trackShown = Some 3
   \<and> selectedDate (setSelectedDevice trackShown (Some 8)) = Some 3
   \<and> locationData (setSelectedDevice trackShown (Some 8)) = [samplePoint]
   \<and> statistics (setSelectedDevice trackShown (Some 8)) \<noteq> None"
  by (simp add: setSelectedDevice_def clearError_def trackShown_def initialHistoryService_def
      del: updateStatistics.simps) (simp add: Let_def)

text \<open>
  C3, amended: for every prior state, \<open>setSelectedDevice\<close> sets \<open>selectedDevice\<close> to the
  given id and resets the error to none; the selected date, the current track, the
  statistics and both caches (entries and metrics) are unchanged.
\<close>

theorem setSelectedDevice_effect:
  "setSelectedDevice s deviceId = s\<lparr>selectedDevice := deviceId, error := None\<rparr>
   \<and> selectedDevice (setSelectedDevice s deviceId) = deviceId
   \<and> error (setSelectedDevice s deviceId) = None
   \<and> selectedDate (setSelectedDevice s deviceId) = selectedDate s
   \<and> locationData (setSelectedDevice s deviceId) = locationData s
   \<and> statistics (setSelectedDevice s deviceId) = statistics s
   \<and> cacheService (setSelectedDevice s deviceId) = cacheService s"
  by (simp add: setSelectedDevice_def clearError_def)


subsection \<open>Loading a track: the three paths\<close>

lemma keys: "locationCacheKey dayLabel 7 3 = ''7-D3''" "locationCacheKey dayLabel 7 2 = ''7-D2''"
   "locationCacheKey dayLabel 7 4 = ''7-D4''"
  by code_simp+

lemma getLocationData_miss_failure:
  assumes "cacheService_getLocationData (cacheService s) (locationCacheKey tds targetId date) now
             = (None, cs)"
    and "retry 2 remote 0 = HttpError
         \<or> (\<exists>r. retry 2 remote 0 = HttpResponse r \<and> code r \<noteq> 200)"
  shows "getLocationData tds s targetId date remote now now' =
           ([], s\<lparr>cacheService := cs, loading := False, error := Some ''Failed to load location data'',
                  locationData := []\<rparr>, [])"
  using assms
  by (auto simp: getLocationData_def getLocationData_catchError_def handleError_def
      updateLocationDataState_def setLoading_def clearError_def Let_def)


lemma updateStatistics_eq:
  "updateStatistics s ls = s\<lparr>statistics := statisticsOf ls\<rparr>"
  by (cases ls) (simp_all add: statisticsOf_def Let_def)

lemma prefetchAdjacentDates_cong:
  "cacheService s1 = cacheService s2 \<Longrightarrow>
   prefetchAdjacentDates tds s1 targetId date now = prefetchAdjacentDates tds s2 targetId date now"
  by (simp add: prefetchAdjacentDates_def)

lemma getLocationData_miss_success:
  assumes "cacheService_getLocationData (cacheService s) (locationCacheKey tds targetId date) now
             = (None, cs)"
    and "retry 2 remote 0 = HttpResponse r" and "code r = 200"
  shows "getLocationData tds s targetId date remote now now' =
           (let locations = (case data_r r of None \<Rightarrow> [] | Some d \<Rightarrow> d);
                cs' = cacheService_setLocationData cs
                        (locationCacheKey tds targetId date) locations None now';
                s' = s\<lparr>cacheService := cs', loading := False, error := None,
                       locationData := locations,
                       statistics := statisticsOf locations,
                       lastUpdated := Some now'\<rparr>
            in (locations, s', prefetchAdjacentDates tds s' targetId date now'))"
proof -
  define locations where "locations = (case data_r r of None \<Rightarrow> [] | Some d \<Rightarrow> d)"
  define cs' where "cs' = cacheService_setLocationData cs
                        (locationCacheKey tds targetId date) locations None now'"
  define s4 where "s4 = s\<lparr>loading := True, error := None, cacheService := cs',
                       locationData := locations,
                       statistics := statisticsOf locations,
                       lastUpdated := Some now'\<rparr>"
  have run: "getLocationData tds s targetId date remote now now' =
      (locations, s4\<lparr>loading := False\<rparr>, prefetchAdjacentDates tds s4 targetId date now')"
    using assms
    by (simp add: getLocationData_def getLocationData_tap_def updateStatistics_eq
        updateLocationDataState_def setLoading_def clearError_def Let_def
        locations_def cs'_def s4_def del: updateStatistics.simps)
  have "prefetchAdjacentDates tds s4 targetId date now'
      = prefetchAdjacentDates tds (s4\<lparr>loading := False\<rparr>) targetId date now'"
    by (rule prefetchAdjacentDates_cong) simp
  with run have "getLocationData tds s targetId date remote now now' =
      (locations, s4\<lparr>loading := False\<rparr>,
       prefetchAdjacentDates tds (s4\<lparr>loading := False\<rparr>) targetId date now')"
    by simp
  moreover have "s4\<lparr>loading := False\<rparr> = s\<lparr>cacheService := cs', loading := False, error := None,
                       locationData := locations,
                       statistics := statisticsOf locations,
                       lastUpdated := Some now'\<rparr>"
    by (rule LocationHistoryService.equality) (simp_all add: s4_def)
  ultimately show ?thesis
    by (simp add: Let_def locations_def cs'_def)
qed


lemma cache_read_pair:
  "fst (cacheService_getLocationData c key now) = None \<Longrightarrow>
   cacheService_getLocationData c key now = (None, snd (cacheService_getLocationData c key now))"
  by (metis prod.collapse)

lemma miss_leaves_key_absent:
  assumes "fst (cacheService_getLocationData c key now) = None"
  shows "map_of (locationDataCache (snd (cacheService_getLocationData c key now))) key = None"
  using assms
  by (auto simp: cacheService_getLocationData_def getCachedData_def AList.delete_conv'
      split: option.splits if_splits)

lemma trackShown_fields:
  "cacheService trackShown = trackShownCache"
  "statistics trackShown = statisticsOf [samplePoint]"
  "locationData trackShown = [samplePoint]"
  by (simp_all add: trackShown_def updateStatistics_eq initialHistoryService_def
      del: updateStatistics.simps)

lemma statisticsOf_nonempty: "statisticsOf (p # ps) \<noteq> None"
  by (simp add: statisticsOf_def Let_def)

lemma retry_remoteDown: "retry 2 remoteDown 0 = HttpError"
  by (simp add: remoteDown_def numeral_2_eq_2)

lemma retry_remoteServes:
  "retry 2 (remoteServes d) 0 = HttpResponse \<lparr>data_r = Some d, code = 200, message = ''OK''\<rparr>"
  by (simp add: remoteServes_def numeral_2_eq_2)

lemma first_read_of_day_4:
  "fst (cacheService_getLocationData trackShownCache ''7-D4'' 30) = None"
  by code_simp

lemma first_read_of_day_3:
  "fst (cacheService_getLocationData initialCacheService ''7-D3'' 10) = None"
  by code_simp

lemma trackShown_reached:
  "fst (snd (getLocationData dayLabel
        (setSelectedDate (setSelectedDevice initialHistoryService (Some 7)) (Some 3))
        7 3 (remoteServes [samplePoint]) 10 20)) = trackShown"
proof -
  let ?s = "setSelectedDate (setSelectedDevice initialHistoryService (Some 7)) (Some 3)"
  have c: "cacheService ?s = initialCacheService"
    by (simp add: setSelectedDate_def setSelectedDevice_def clearError_def
        initialHistoryService_def)
  have miss: "fst (cacheService_getLocationData (cacheService ?s)
                 (locationCacheKey dayLabel 7 3) 10) = None"
    by (simp only: c keys first_read_of_day_3)
  have "fst (snd (getLocationData dayLabel ?s 7 3 (remoteServes [samplePoint]) 10 20))
      = ?s\<lparr>cacheService := trackShownCache, loading := False, error := None,
            locationData := [samplePoint], statistics := statisticsOf [samplePoint],
            lastUpdated := Some 20\<rparr>"
    by (simp add: getLocationData_miss_success [OF cache_read_pair [OF miss] retry_remoteServes]
        Let_def keys c trackShownCache_def)
  also have "\<dots> = trackShown"
    by (rule LocationHistoryService.equality)
       (simp_all add: trackShown_def updateStatistics_eq setSelectedDate_def
          setSelectedDevice_def clearError_def initialHistoryService_def
          del: updateStatistics.simps)
  finally show ?thesis .
qed


subsection \<open>C4: a failed load\<close>

text \<open>
  The failure path in general: the track is emptied, the error set, nothing requested,
  the key is absent from the cache (so the next call for it misses again and goes to the
  remote), and the statistics are what they were.
\<close>

lemma failed_load_general:
  assumes "fst (cacheService_getLocationData (cacheService s)
                  (locationCacheKey tds targetId date) now) = None"
    and "retry 2 remote 0 = HttpError
         \<or> (\<exists>r. retry 2 remote 0 = HttpResponse r \<and> code r \<noteq> 200)"
  shows "case getLocationData tds s targetId date remote now now' of
           (result, s', requests) \<Rightarrow>
             result = [] \<and> locationData s' = [] \<and> error s' \<noteq> None \<and> \<not> loading s'
             \<and> requests = []
             \<and> map_of (locationDataCache (cacheService s')) (locationCacheKey tds targetId date)
                 = None
             \<and> fst (cacheService_getLocationData (cacheService s')
                      (locationCacheKey tds targetId date) later) = None
             \<and> statistics s' = statistics s"
proof -
  let ?key = "locationCacheKey tds targetId date"
  let ?cs = "snd (cacheService_getLocationData (cacheService s) ?key now)"
  have absent: "map_of (locationDataCache ?cs) ?key = None"
    using assms(1) by (rule miss_leaves_key_absent)
  then have again: "fst (cacheService_getLocationData ?cs ?key later) = None"
    by (simp add: cacheService_getLocationData_def getCachedData_missing)
  show ?thesis
    using absent again
    by (simp add: getLocationData_miss_failure [OF cache_read_pair [OF assms(1)] assms(2)])
qed

text \<open>
  C4 says that after a load whose fetch fails the current track and the current
  statistics are empty, the error is set and nothing is cached for the key. The
  \<open>catchError\<close> stage sets the error and empties the track, and the key stays absent,
  but it does not touch the statistics: with the track of day 3 shown (the state reached
  in \<open>trackShown_reached\<close>), a load of day 4 that fails on all three attempts leaves an
  empty track together with the statistics of day 3.
\<close>

theorem failed_load_keeps_statistics:
  "statistics trackShown \<noteq> None
   \<and> (case getLocationData dayLabel trackShown 7 4 remoteDown 30 40 of
        (result, s', requests) \<Rightarrow>
          result = [] \<and> locationData s' = []
          \<and> error s' = Some ''Failed to load location data''
          \<and> map_of (locationDataCache (cacheService s')) ''7-D4'' = None
          \<and> statistics s' = statistics trackShown)"
proof -
  have k: "locationCacheKey dayLabel 7 4 = ''7-D4''"
    by code_simp
  have miss: "fst (cacheService_getLocationData (cacheService trackShown)
                 (locationCacheKey dayLabel 7 4) 30) = None"
    by (simp only: k trackShown_fields first_read_of_day_4)
  have absent: "map_of (locationDataCache (snd (cacheService_getLocationData
                  (cacheService trackShown) ''7-D4'' 30))) ''7-D4'' = None"
    using miss unfolding k by (rule miss_leaves_key_absent)
  have "getLocationData dayLabel trackShown 7 4 remoteDown 30 40 =
          ([], trackShown\<lparr>cacheService := snd (cacheService_getLocationData
                  (cacheService trackShown) (locationCacheKey dayLabel 7 4) 30),
              loading := False, error := Some ''Failed to load location data'',
              locationData := []\<rparr>, [])"
    by (rule getLocationData_miss_failure [OF cache_read_pair [OF miss]])
       (simp add: retry_remoteDown)
  then show ?thesis
    using absent by (simp add: k trackShown_fields(2) statisticsOf_nonempty)
qed



subsection \<open>C2: refreshing\<close>

lemma refreshed_cache:
  "fst (cacheService_getLocationData (clearAll twoTracksCache) ''7-D3'' 50) = None
   \<and> map fst (locationDataCache (cacheService_setLocationData
         (snd (cacheService_getLocationData (clearAll twoTracksCache) ''7-D3'' 50))
         ''7-D3'' [] None 60)) = [''7-D3'']
   \<and> map fst (availableDatesCache (cacheService_setLocationData
         (snd (cacheService_getLocationData (clearAll twoTracksCache) ''7-D3'' 50))
         ''7-D3'' [] None 60)) = []
   \<and> hits (metrics_sig (cacheService_setLocationData
         (snd (cacheService_getLocationData (clearAll twoTracksCache) ''7-D3'' 50))
         ''7-D3'' [] None 60)) = 0"
  by code_simp

lemma twoTracksCache_contents:
  "map fst (locationDataCache twoTracksCache) = [''7-D2'', ''7-D3'']
   \<and> map fst (availableDatesCache twoTracksCache) = [''7-2024-6'']
   \<and> hits (metrics_sig twoTracksCache) = 1
   \<and> hasLocationData twoTracksCache ''7-D2'' 60"
  by code_simp

text \<open>Without a selection \<open>refreshData\<close> does nothing.\<close>

lemma refreshData_without_selection:
  assumes "selectedDevice s = None \<or> selectedDevice s = Some 0 \<or> selectedDate s = None"
  shows "refreshData tds s remote now now' = (None, s, [])"
  using assms by (auto simp: refreshData_def split: option.splits)

text \<open>
  C2 says that \<open>refresh\<close> removes only the entry of the current selection. \<open>refreshData\<close>
  computes that key and then calls \<open>clearAll\<close>: with the tracks of days 2 and 3 and one
  month of availability cached, day 3 selected and one hit counted, a refresh leaves only
  the reloaded track of day 3; the valid entry of day 2, the availability entry and the
  hit counter are gone.
\<close>

theorem refresh_clears_every_entry:
  "map fst (locationDataCache (cacheService twoTracksCached)) = [''7-D2'', ''7-D3'']
   \<and> map fst (availableDatesCache (cacheService twoTracksCached)) = [''7-2024-6'']
   \<and> hits (metrics_sig (cacheService twoTracksCached)) = 1
   \<and> hasLocationData (cacheService twoTracksCached) ''7-D2'' 60
   \<and> (case refreshData dayLabel twoTracksCached (remoteServes []) 50 60 of
        (result, s', requests) \<Rightarrow>
          result = Some []
          \<and> map fst (locationDataCache (cacheService s')) = [''7-D3'']
          \<and> map fst (availableDatesCache (cacheService s')) = []
          \<and> hits (metrics_sig (cacheService s')) = 0)"
proof -
  let ?s1 = "twoTracksCached\<lparr>cacheService := clearAll twoTracksCache\<rparr>"
  have c: "cacheService twoTracksCached = twoTracksCache"
    by (simp add: twoTracksCached_def)
  have k: "locationCacheKey dayLabel 7 3 = ''7-D3''"
    by code_simp
  have miss: "fst (cacheService_getLocationData (cacheService ?s1)
                 (locationCacheKey dayLabel 7 3) 50) = None"
    using refreshed_cache by (simp add: k c)
  have run: "getLocationData dayLabel ?s1 7 3 (remoteServes []) 50 60 =
      (let locations = (case data_r \<lparr>data_r = Some [], code = 200, message = ''OK''\<rparr> of
                          None \<Rightarrow> [] | Some d \<Rightarrow> d);
           cs' = cacheService_setLocationData
                   (snd (cacheService_getLocationData (cacheService ?s1)
                      (locationCacheKey dayLabel 7 3) 50))
                   (locationCacheKey dayLabel 7 3) locations None 60;
           s' = ?s1\<lparr>cacheService := cs', loading := False, error := None,
                     locationData := locations, statistics := statisticsOf locations,
                     lastUpdated := Some 60\<rparr>
       in (locations, s', prefetchAdjacentDates dayLabel s' 7 3 60))"
    by (rule getLocationData_miss_success [OF cache_read_pair [OF miss] retry_remoteServes])
       simp
  have sel: "selectedDevice twoTracksCached = Some 7" "selectedDate twoTracksCached = Some 3"
    by (simp_all add: twoTracksCached_def)
  have "case refreshData dayLabel twoTracksCached (remoteServes []) 50 60 of
        (result, s', requests) \<Rightarrow>
          result = Some []
          \<and> cacheService s' = cacheService_setLocationData
               (snd (cacheService_getLocationData (clearAll twoTracksCache) ''7-D3'' 50))
               ''7-D3'' [] None 60"
    unfolding refreshData_def sel
    by (simp add: run Let_def k c)
  then have "case refreshData dayLabel twoTracksCached (remoteServes []) 50 60 of
        (result, s', requests) \<Rightarrow>
          result = Some []
          \<and> map fst (locationDataCache (cacheService s')) = [''7-D3'']
          \<and> map fst (availableDatesCache (cacheService s')) = []
          \<and> hits (metrics_sig (cacheService s')) = 0"
    using refreshed_cache by (auto split: prod.splits)
  then show ?thesis
    using twoTracksCache_contents by (simp add: c)
qed


subsection \<open>C9: prefetching the adjacent days\<close>

lemma getLocationData_hit:
  assumes "fst (cacheService_getLocationData (cacheService s)
                  (locationCacheKey tds targetId date) now) = Some c"
  shows "snd (snd (getLocationData tds s targetId date remote now now')) = []"
proof -
  obtain r cs where p: "cacheService_getLocationData (cacheService s)
                  (locationCacheKey tds targetId date) now = (r, cs)"
    by (cases "cacheService_getLocationData (cacheService s)
                  (locationCacheKey tds targetId date) now")
  with assms have "r = Some c"
    by simp
  with p show ?thesis
    by (simp add: getLocationData_def Let_def)
qed

lemma getLocationData_requests:
  "snd (snd (getLocationData tds s targetId date remote now now')) = [] \<or>
   (fst (cacheService_getLocationData (cacheService s)
             (locationCacheKey tds targetId date) now) = None
    \<and> (\<exists>r. retry 2 remote 0 = HttpResponse r \<and> code r = 200))"
proof (cases "fst (cacheService_getLocationData (cacheService s)
                  (locationCacheKey tds targetId date) now)")
  case (Some c)
  then show ?thesis
    by (simp add: getLocationData_hit)
next
  case None
  note miss = cache_read_pair [OF None]
  show ?thesis
  proof (cases "retry 2 remote 0")
    case HttpError
    then show ?thesis
      by (simp add: getLocationData_miss_failure [OF miss])
  next
    case (HttpResponse r)
    show ?thesis
    proof (cases "code r = 200")
      case True
      with None HttpResponse show ?thesis by simp
    next
      case False
      with HttpResponse have "retry 2 remote 0 = HttpError
         \<or> (\<exists>r. retry 2 remote 0 = HttpResponse r \<and> code r \<noteq> 200)"
        by simp
      then show ?thesis
        by (simp add: getLocationData_miss_failure [OF miss])
    qed
  qed
qed

text \<open>
  The requests and the frame of a prefetch. Every prefetch request that a call of
  \<open>getLocationData\<close> schedules is for the day before or the day after \<open>date\<close> and for a
  key that the track cache does not validly hold when the response is handled; when the
  call fetches the track successfully (a cache miss, then a response with code 200 within
  the retries) the requests scheduled are exactly those for the adjacent days whose keys
  are not validly held. Resolving a request, with any outcome, changes none of the
  current track, the statistics, the loading flag, the error and the selection (it writes
  the cache service only); a prefetch whose HTTP request fails leaves the whole service as
  it was. A prefetch is one attempt: its pipeline has no retry stage.
\<close>

lemma prefetch_requests_and_frame:
  "(case getLocationData toDateString s targetId date remote now now' of
      (result, s', requests) \<Rightarrow>
        (\<forall>req \<in> set requests.
            \<not> hasLocationData (cacheService s') (pf_cacheKey req) now'
            \<and> pf_cacheKey req = locationCacheKey toDateString targetId (pf_date req)
            \<and> (pf_date req = date - 1 \<or> pf_date req = date + 1))
        \<and> (fst (cacheService_getLocationData (cacheService s)
                   (locationCacheKey toDateString targetId date) now) = None
           \<and> (\<exists>r. retry 2 remote 0 = HttpResponse r \<and> code r = 200)
           \<longrightarrow> requests = adjacentRequests toDateString (cacheService s') targetId date now'))
   \<and> (\<forall>u req outcome t.
         prefetch_resolve u req outcome t
           = u\<lparr>cacheService := cacheService (prefetch_resolve u req outcome t)\<rparr>
       \<and> locationData (prefetch_resolve u req outcome t) = locationData u
       \<and> statistics (prefetch_resolve u req outcome t) = statistics u
       \<and> loading (prefetch_resolve u req outcome t) = loading u
       \<and> error (prefetch_resolve u req outcome t) = error u
       \<and> selectedDevice (prefetch_resolve u req outcome t) = selectedDevice u
       \<and> selectedDate (prefetch_resolve u req outcome t) = selectedDate u)
   \<and> (\<forall>u req t. prefetch_resolve u req HttpError t = u)"
proof -
  obtain result s' requests
    where run: "getLocationData toDateString s targetId date remote now now'
                  = (result, s', requests)"
    by (cases "getLocationData toDateString s targetId date remote now now'")
  have frame: "prefetch_resolve u req outcome t
           = u\<lparr>cacheService := cacheService (prefetch_resolve u req outcome t)\<rparr>
           \<and> locationData (prefetch_resolve u req outcome t) = locationData u
           \<and> statistics (prefetch_resolve u req outcome t) = statistics u
           \<and> loading (prefetch_resolve u req outcome t) = loading u
           \<and> error (prefetch_resolve u req outcome t) = error u
           \<and> selectedDevice (prefetch_resolve u req outcome t) = selectedDevice u
           \<and> selectedDate (prefetch_resolve u req outcome t) = selectedDate u"
    for u req outcome t
    by (cases outcome) (simp_all add: prefetch_resolve_def)
  have swallowed: "prefetch_resolve u req HttpError t = u" for u req t
    by (simp add: prefetch_resolve_def)
  have exact: "requests = adjacentRequests toDateString (cacheService s') targetId date now'"
    if miss: "fst (cacheService_getLocationData (cacheService s)
                   (locationCacheKey toDateString targetId date) now) = None"
      and ok: "retry 2 remote 0 = HttpResponse r" "code r = 200" for r
    using run
    by (auto simp: getLocationData_miss_success [OF cache_read_pair [OF miss] ok]
        Let_def prefetchAdjacentDates_def adjacentRequests_def)
  have each: "\<not> hasLocationData (cacheService s') (pf_cacheKey req) now'
            \<and> pf_cacheKey req = locationCacheKey toDateString targetId (pf_date req)
            \<and> (pf_date req = date - 1 \<or> pf_date req = date + 1)"
    if "req \<in> set requests" for req
  proof -
    from that run getLocationData_requests [of toDateString s targetId date remote now now']
    obtain r where "fst (cacheService_getLocationData (cacheService s)
                   (locationCacheKey toDateString targetId date) now) = None"
      and "retry 2 remote 0 = HttpResponse r" and "code r = 200"
      by auto
    then have "requests = adjacentRequests toDateString (cacheService s') targetId date now'"
      by (rule exact)
    with that show ?thesis
      by (auto simp: adjacentRequests_def split: if_splits)
  qed
  from each exact frame swallowed show ?thesis
    unfolding run by (simp only: prod.case) blast
qed

lemma first_load_cache:
  "fst (cacheService_getLocationData initialCacheService ''7-D3'' 10) = None
   \<and> \<not> hasLocationData (cacheService_setLocationData
         (snd (cacheService_getLocationData initialCacheService ''7-D3'' 10))
         ''7-D3'' [samplePoint] None 20) ''7-D2'' 20
   \<and> \<not> hasLocationData (cacheService_setLocationData
         (snd (cacheService_getLocationData initialCacheService ''7-D3'' 10))
         ''7-D3'' [samplePoint] None 20) ''7-D4'' 20"
  by code_simp

lemma prefetch_requests_example:
  "fst (cacheService_getLocationData (cacheService initialHistoryService)
          (locationCacheKey dayLabel 7 3) 10) = None
   \<and> retry 2 (remoteServes [samplePoint]) 0
       = HttpResponse \<lparr>data_r = Some [samplePoint], code = 200, message = ''OK''\<rparr>
   \<and> (case getLocationData dayLabel initialHistoryService 7 3 (remoteServes [samplePoint]) 10 20 of
        (result, s', requests) \<Rightarrow>
          requests = [\<lparr>pf_cacheKey = ''7-D2'', pf_targetId = 7, pf_date = 2\<rparr>,
                      \<lparr>pf_cacheKey = ''7-D4'', pf_targetId = 7, pf_date = 4\<rparr>]
          \<and> locationData s' = [samplePoint]
          \<and> locationData (prefetch_resolve s' (hd requests) (remoteServes [] 0) 1020)
              = [samplePoint]
          \<and> prefetch_resolve s' (hd requests) HttpError 1020 = s')"
proof -
  have c: "cacheService initialHistoryService = initialCacheService"
    by (simp add: initialHistoryService_def)
  have miss: "fst (cacheService_getLocationData (cacheService initialHistoryService)
          (locationCacheKey dayLabel 7 3) 10) = None"
    using first_load_cache by (simp add: keys c)
  note ok = retry_remoteServes [of "[samplePoint]"]
  obtain result s' requests
    where run: "getLocationData dayLabel initialHistoryService 7 3 (remoteServes [samplePoint]) 10 20
                  = (result, s', requests)"
    by (cases "getLocationData dayLabel initialHistoryService 7 3 (remoteServes [samplePoint]) 10 20")
  from getLocationData_miss_success [OF cache_read_pair [OF miss] ok, of 20] run
  have s': "cacheService s' = cacheService_setLocationData
         (snd (cacheService_getLocationData initialCacheService ''7-D3'' 10))
         ''7-D3'' [samplePoint] None 20" and d: "locationData s' = [samplePoint]"
    by (auto simp: Let_def keys c)
  note inst = prefetch_requests_and_frame
      [where toDateString = dayLabel and s = initialHistoryService and targetId = 7
         and date = 3 and remote = "remoteServes [samplePoint]" and now = 10 and now' = 20]
  from inst miss ok run
  have "requests = adjacentRequests dayLabel (cacheService s') 7 3 20"
    by auto
  then have reqs: "requests = [\<lparr>pf_cacheKey = ''7-D2'', pf_targetId = 7, pf_date = 2\<rparr>,
                      \<lparr>pf_cacheKey = ''7-D4'', pf_targetId = 7, pf_date = 4\<rparr>]"
    using first_load_cache by (simp add: adjacentRequests_def s' keys)
  from inst have "locationData (prefetch_resolve s' (hd requests) (remoteServes [] 0) 1020)
      = locationData s'"
    and "prefetch_resolve s' (hd requests) HttpError 1020 = s'"
    by blast+
  with miss ok reqs d show ?thesis
    unfolding run by simp
qed

text \<open>
  What resolving a prefetch request writes. A failed HTTP request writes nothing. Any
  response body, whatever its \<open>code\<close>, has its data (the empty track when it has none)
  stored in the track cache under the request's key, with the doubled default TTL; the
  availability cache is not touched. The pipeline never looks at \<open>response.code\<close>.
\<close>

lemma getLocationData_hit_result:
  assumes "cacheService_getLocationData (cacheService s)
             (locationCacheKey tds targetId date) now = (Some c, cs)"
  shows "getLocationData tds s targetId date remote now now'
           = (c, s\<lparr>cacheService := cs, locationData := c\<rparr>, [])"
  using assms by (simp add: getLocationData_def Let_def updateLocationDataState_def)

lemma setCachedData_stores:
  "map_of (fst (setCachedData cfg m cache key d ttl_ms now)) key
     = Some \<lparr>data = d, timestamp = now, ttl = ttl_ms, accessCount = 1, lastAccessed = now\<rparr>"
  by (simp add: setCachedData_def AList.update_conv' split: prod.splits)

lemma prefetch_resolve_effect:
  "prefetch_resolve u req HttpError t = u"
  "prefetch_resolve u req (HttpResponse response) t =
     u\<lparr>cacheService :=
         cacheService_setLocationData (cacheService u) (pf_cacheKey req)
           (case data_r response of None \<Rightarrow> [] | Some d \<Rightarrow> d) None t\<rparr>"
  "map_of (locationDataCache (cacheService (prefetch_resolve u req (HttpResponse response) t)))
       (pf_cacheKey req)
     = Some \<lparr>data = (case data_r response of None \<Rightarrow> [] | Some d \<Rightarrow> d), timestamp = t,
             ttl = defaultTtl (config (cacheService u)) * 2, accessCount = 1,
             lastAccessed = t\<rparr>"
  "availableDatesCache (cacheService (prefetch_resolve u req (HttpResponse response) t))
     = availableDatesCache (cacheService u)"
  using setCachedData_stores [of "config (cacheService u)" "metrics_sig (cacheService u)"
      "locationDataCache (cacheService u)" "pf_cacheKey req"
      "case data_r response of None \<Rightarrow> [] | Some d \<Rightarrow> d"
      "defaultTtl (config (cacheService u)) * 2" t]
  by (simp_all add: prefetch_resolve_def cacheService_setLocationData_def case_prod_unfold Let_def)

lemma day3_load_run:
  "getLocationData dayLabel
     (setSelectedDate (setSelectedDevice initialHistoryService (Some 7)) (Some 3))
     7 3 (remoteServes [samplePoint]) 10 20
   = ([samplePoint], trackShown,
      [\<lparr>pf_cacheKey = ''7-D2'', pf_targetId = 7, pf_date = 2\<rparr>, dayFourRequest])"
proof -
  let ?s = "setSelectedDate (setSelectedDevice initialHistoryService (Some 7)) (Some 3)"
  let ?run = "getLocationData dayLabel ?s 7 3 (remoteServes [samplePoint]) 10 20"
  have c: "cacheService ?s = initialCacheService"
    by (simp add: setSelectedDate_def setSelectedDevice_def clearError_def
        initialHistoryService_def)
  have miss: "fst (cacheService_getLocationData (cacheService ?s)
                 (locationCacheKey dayLabel 7 3) 10) = None"
    by (simp only: c keys first_read_of_day_3)
  note run = getLocationData_miss_success [OF cache_read_pair [OF miss] retry_remoteServes,
      where now' = 20]
  have r: "fst ?run = [samplePoint]"
    by (simp add: run Let_def)
  have s: "fst (snd ?run) = trackShown"
    by (rule trackShown_reached)
  have "snd (snd ?run) = prefetchAdjacentDates dayLabel (fst (snd ?run)) 7 3 20"
    by (simp add: run Let_def)
  also have "\<dots> = prefetchAdjacentDates dayLabel trackShown 7 3 20"
    by (simp only: s)
  also have "\<dots> = [\<lparr>pf_cacheKey = ''7-D2'', pf_targetId = 7, pf_date = 2\<rparr>, dayFourRequest]"
    using first_load_cache
    by (simp add: prefetchAdjacentDates_def keys trackShown_fields trackShownCache_def
        dayFourRequest_def)
  finally have q: "snd (snd ?run)
      = [\<lparr>pf_cacheKey = ''7-D2'', pf_targetId = 7, pf_date = 2\<rparr>, dayFourRequest]" .
  from r s q show ?thesis
    by (metis prod.collapse)
qed

lemma poisoned_cache:
  "map_of (locationDataCache (cacheService_setLocationData trackShownCache ''7-D4'' [] None 1020))
       ''7-D4''
     = Some \<lparr>data = [], timestamp = 1020, ttl = 1200000, accessCount = 1, lastAccessed = 1020\<rparr>
   \<and> hasLocationData (cacheService_setLocationData trackShownCache ''7-D4'' [] None 1020)
         ''7-D4'' 2000
   \<and> fst (cacheService_getLocationData
         (cacheService_setLocationData trackShownCache ''7-D4'' [] None 1020) ''7-D4'' 2000)
       = Some []
   \<and> fst (cacheService_getLocationData trackShownCache ''7-D4'' 2000) = None"
  by code_simp

lemma afterRejectedPrefetch_fields:
  "cacheService afterRejectedPrefetch
     = cacheService_setLocationData trackShownCache ''7-D4'' [] None 1020"
  "locationData afterRejectedPrefetch = [samplePoint]"
  "statistics afterRejectedPrefetch = statistics trackShown"
  "error afterRejectedPrefetch = None"
  "loading afterRejectedPrefetch = False"
  by (simp_all add: afterRejectedPrefetch_def rejectedBody_def prefetch_resolve_def
      dayFourRequest_def trackShown_fields trackShown_def updateStatistics_eq
      initialHistoryService_def del: updateStatistics.simps)

text \<open>
  C9 says that a prefetch's result is written only to the cache and that a prefetch
  failure is swallowed, neither surfaced nor retried. The three foreground pipelines
  (\<open>getAvailableDates\<close>, \<open>getLocationData\<close>, \<open>getLocationDataRange\<close>) throw on
  \<open>response.code !== 200\<close> and so cache nothing for a rejected request; the prefetch
  pipeline has no such test. Here the load of day 3 schedules the prefetch of days 2 and
  4, and the prefetch of day 4 is answered with code 500 and no data: the current track
  and the error are untouched, but the failure is stored as a valid empty track for day
  4. Until it expires the has-check reports the day as cached and a load of day 4,
  whatever the remote would answer, shows an empty track without an error and without a
  request. The same body on the foreground path sets the error and caches nothing.
\<close>

theorem rejected_prefetch_is_cached:
  "getLocationData dayLabel
     (setSelectedDate (setSelectedDevice initialHistoryService (Some 7)) (Some 3))
     7 3 (remoteServes [samplePoint]) 10 20
   = ([samplePoint], trackShown,
      [\<lparr>pf_cacheKey = ''7-D2'', pf_targetId = 7, pf_date = 2\<rparr>, dayFourRequest])
   \<and> afterRejectedPrefetch = prefetch_resolve trackShown dayFourRequest
         (HttpResponse \<lparr>data_r = None, code = 500, message = ''Internal error''\<rparr>) 1020
   \<and> locationData afterRejectedPrefetch = [samplePoint]
   \<and> error afterRejectedPrefetch = None
   \<and> map_of (locationDataCache (cacheService afterRejectedPrefetch)) ''7-D4''
       = Some \<lparr>data = [], timestamp = 1020, ttl = 1200000, accessCount = 1, lastAccessed = 1020\<rparr>
   \<and> hasLocationData (cacheService afterRejectedPrefetch) ''7-D4'' 2000
   \<and> (\<forall>remote.
         fst (getLocationData dayLabel afterRejectedPrefetch 7 4 remote 2000 2010) = []
       \<and> locationData (fst (snd (getLocationData dayLabel afterRejectedPrefetch 7 4 remote
             2000 2010))) = []
       \<and> error (fst (snd (getLocationData dayLabel afterRejectedPrefetch 7 4 remote
             2000 2010))) = None)
   \<and> error (fst (snd (getLocationData dayLabel trackShown 7 4 (\<lambda>attempt. rejectedBody)
         2000 2010))) = Some ''Failed to load location data''
   \<and> map_of (locationDataCache (cacheService (fst (snd (getLocationData dayLabel trackShown 7 4
         (\<lambda>attempt. rejectedBody) 2000 2010))))) ''7-D4'' = None"
proof -
  let ?poisoned = "cacheService_setLocationData trackShownCache ''7-D4'' [] None 1020"
  have k: "locationCacheKey dayLabel 7 4 = ''7-D4''"
    by code_simp
  have hit: "cacheService_getLocationData (cacheService afterRejectedPrefetch)
               (locationCacheKey dayLabel 7 4) 2000
             = (Some [], snd (cacheService_getLocationData ?poisoned ''7-D4'' 2000))"
    using poisoned_cache by (simp add: k afterRejectedPrefetch_fields(1)) (metis prod.collapse)
  have served: "fst (getLocationData dayLabel afterRejectedPrefetch 7 4 remote 2000 2010) = []
       \<and> locationData (fst (snd (getLocationData dayLabel afterRejectedPrefetch 7 4 remote
             2000 2010))) = []
       \<and> error (fst (snd (getLocationData dayLabel afterRejectedPrefetch 7 4 remote
             2000 2010))) = None" for remote
    by (simp add: getLocationData_hit_result [OF hit] afterRejectedPrefetch_fields(4))
  have miss: "fst (cacheService_getLocationData (cacheService trackShown)
                 (locationCacheKey dayLabel 7 4) 2000) = None"
    using poisoned_cache by (simp add: k trackShown_fields(1))
  have rejected: "retry 2 (\<lambda>attempt. rejectedBody) 0 = HttpError
         \<or> (\<exists>r. retry 2 (\<lambda>attempt. rejectedBody) 0 = HttpResponse r \<and> code r \<noteq> 200)"
    by (simp add: rejectedBody_def numeral_2_eq_2)
  note foreground = failed_load_general [OF miss rejected, where now' = 2010 and later = 2000]
  have fg: "error (fst (snd (getLocationData dayLabel trackShown 7 4 (\<lambda>attempt. rejectedBody)
         2000 2010))) = Some ''Failed to load location data''
   \<and> map_of (locationDataCache (cacheService (fst (snd (getLocationData dayLabel trackShown 7 4
         (\<lambda>attempt. rejectedBody) 2000 2010))))) ''7-D4'' = None"
    using foreground
    by (simp add: k getLocationData_miss_failure [OF cache_read_pair [OF miss] rejected]
        split: prod.splits)
  show ?thesis
    using day3_load_run served fg poisoned_cache
    by (simp add: afterRejectedPrefetch_fields)
       (simp add: afterRejectedPrefetch_def rejectedBody_def)
qed


end
